theory Spec2Isabelle
  imports Complex_Main "HOL-Library.Sublist"
begin

section \<open>JavaScript strings\<close>

text \<open>
  A JavaScript string is a sequence of UTF-16 code units. The sources compare, search and
  cut strings by code unit (\<^verbatim>\<open>includes\<close>, \<^verbatim>\<open>split\<close>, \<^verbatim>\<open>slice\<close>,
  \<^verbatim>\<open>length\<close>), and the white space class of \<^verbatim>\<open>\s\<close> and of \<^verbatim>\<open>trim()\<close>
  has members beyond ASCII, so a code unit is a number and a string a list of them.
  \<open>js\<close> writes an ASCII literal of the source as such a list.
\<close>

type_synonym jschar = nat
type_synonym jsstring = "jschar list"

definition js :: "string \<Rightarrow> jsstring" where
  "js s = map of_char s"

text \<open>
  The characters matched by \<^verbatim>\<open>\s\<close> and stripped by \<^verbatim>\<open>trim()\<close>: ECMAScript's
  WhiteSpace and LineTerminator productions (TAB, LF, VT, FF, CR, SP, NBSP, U+1680,
  U+2000 to U+200A, LS, PS, U+202F, U+205F, U+3000, U+FEFF).
\<close>

definition is_ws :: "jschar \<Rightarrow> bool" where
  "is_ws c = (c \<in> set [9, 10, 11, 12, 13, 32, 160, 5760, 8232, 8233, 8239, 8287, 12288, 65279]
              \<or> (8192 \<le> c \<and> c \<le> 8202))"

abbreviation (input) SP :: jschar where "SP \<equiv> 32"
abbreviation (input) NL :: jschar where "NL \<equiv> 10"

text \<open>\<^verbatim>\<open>s.trim()\<close>: white space removed from both ends.\<close>

definition trim :: "jsstring \<Rightarrow> jsstring" where
  "trim s = rev (dropWhile is_ws (rev (dropWhile is_ws s)))"

text \<open>\<^verbatim>\<open>s.includes(t)\<close>: \<open>t\<close> occurs in \<open>s\<close> as a contiguous run of code units.\<close>

fun includes_js :: "jsstring \<Rightarrow> jsstring \<Rightarrow> bool" where
  "includes_js [] t = (t = [])"
| "includes_js (c # cs) t = (prefix t (c # cs) \<or> includes_js cs t)"

text \<open>\<^verbatim>\<open>s.slice(0, n)\<close> for a non-negative \<open>n\<close>.\<close>

definition slice0 :: "nat \<Rightarrow> 'a list \<Rightarrow> 'a list" where
  "slice0 n xs = take n xs"

section \<open>utils.ts: the text normalizer\<close>

text \<open>
  \<^verbatim>\<open>text.replace(/\s+/g, ' ')\<close>: scanning from the left, each maximal run of white
  space (the greedy \<^verbatim>\<open>\s+\<close>) is replaced by one space.
\<close>

function collapseWs :: "jsstring \<Rightarrow> jsstring" where
  "collapseWs [] = []"
| "collapseWs (c # cs) =
     (if is_ws c then SP # collapseWs (dropWhile is_ws cs) else c # collapseWs cs)"
  by pat_completeness auto
termination
  by (relation "measure length") (auto simp: less_Suc_eq_le length_dropWhile_le)

text \<open>
  \<^verbatim>\<open>.replace(/\n\s*\n/g, '\n')\<close>. After a line feed at the current position,
  \<^verbatim>\<open>\s*\<close> takes the whole run of white space that follows and backs off to the last
  line feed in it; \<open>blankMatch\<close> returns what is left of the subject after that match,
  or \<open>None\<close> when the run holds no line feed and the pattern fails here.
\<close>

definition blankMatch :: "jsstring \<Rightarrow> jsstring option" where
  "blankMatch cs =
     (let run = takeWhile is_ws cs in
      if NL \<in> set run
      then Some (drop (length run - length (takeWhile (\<lambda>c. c \<noteq> NL) (rev run))) cs)
      else None)"

function removeBlankLines :: "jsstring \<Rightarrow> jsstring" where
  "removeBlankLines [] = []"
| "removeBlankLines (c # cs) =
     (if c = NL
      then (case blankMatch cs of
              Some r \<Rightarrow> NL # removeBlankLines r
            | None \<Rightarrow> c # removeBlankLines cs)
      else c # removeBlankLines cs)"
  by pat_completeness auto
termination
  by (relation "measure length")
    (auto simp: less_Suc_eq_le blankMatch_def Let_def split: if_splits)

definition cleanText :: "jsstring \<Rightarrow> jsstring" where
  "cleanText text = trim (removeBlankLines (collapseWs text))"

text \<open>
  \<^verbatim>\<open>s.split(sep)\<close> for a separator of one code unit: the pieces between the separators, in
  order; a string without the separator (the empty string too) gives one piece.
\<close>

fun split_js :: "jschar \<Rightarrow> jsstring \<Rightarrow> jsstring list" where
  "split_js sep [] = [[]]"
| "split_js sep (c # cs) =
     (if c = sep then [] # split_js sep cs
      else (case split_js sep cs of [] \<Rightarrow> [[c]] | p # ps \<Rightarrow> (c # p) # ps))"

text \<open>\<^verbatim>\<open>parts.join(sep)\<close>.\<close>

fun join_js :: "jsstring \<Rightarrow> jsstring list \<Rightarrow> jsstring" where
  "join_js sep [] = []"
| "join_js sep [x] = x"
| "join_js sep (x # y # ys) = x @ sep @ join_js sep (y # ys)"

text \<open>
  What a \<^verbatim>\<open>catch\<close> clause receives: an \<^verbatim>\<open>Error\<close> object with its message, or any
  other thrown value. A computation that may throw returns \<open>thrown + 'a\<close>.
\<close>

datatype thrown = Error jsstring | NonError

section \<open>utils.ts: the platform classifier\<close>

datatype Platform = Zhihu | Xiaohongshu | Twitter | Wechat | Unknown

text \<open>
  \<^verbatim>\<open>new URL(url).hostname\<close> and \<^verbatim>\<open>String.prototype.toLowerCase\<close> belong to the
  JavaScript runtime; \<open>detectPlatform\<close> takes them as \<open>hostname\<close> (which throws on a
  string that is no URL) and \<open>toLowerCase\<close>.
\<close>

definition detectPlatform ::
  "(jsstring \<Rightarrow> thrown + jsstring) \<Rightarrow> (jsstring \<Rightarrow> jsstring) \<Rightarrow> jsstring \<Rightarrow> thrown + Platform" where
  "detectPlatform hostname toLowerCase url =
     (case hostname url of
        Inl e \<Rightarrow> Inl e
      | Inr h \<Rightarrow>
          (let host = toLowerCase h in
           if includes_js host (js ''zhihu.com'') then Inr Zhihu
           else if includes_js host (js ''xiaohongshu.com'') \<or> includes_js host (js ''xhslink.com'')
             then Inr Xiaohongshu
           else if includes_js host (js ''twitter.com'') \<or> includes_js host (js ''x.com'')
             then Inr Twitter
           else if includes_js host (js ''weixin.qq.com'') \<or> includes_js host (js ''mp.weixin.qq.com'')
             then Inr Wechat
           else Inr Unknown))"

text \<open>\<open>toLowerCase\<close> on a string of ASCII code units, as a host name is.\<close>

definition asciiLower :: "jsstring \<Rightarrow> jsstring" where
  "asciiLower s = map (\<lambda>c. if 65 \<le> c \<and> c \<le> 90 then c + 32 else c) s"

section \<open>utils.ts: the cookie normalizer\<close>

record CookieParam =
  c_name :: jsstring
  c_value :: jsstring
  c_domain :: "jsstring option"
  c_path :: "jsstring option"

text \<open>The argument \<^verbatim>\<open>CookieParam[] | string | undefined\<close>; \<open>None\<close> is \<^verbatim>\<open>undefined\<close>.\<close>

datatype cookies_arg = CookieArray "CookieParam list" | CookieString jsstring

abbreviation (input) SEMI :: jschar where "SEMI \<equiv> 59"
abbreviation (input) EQ :: jschar where "EQ \<equiv> 61"

text \<open>\<^verbatim>\<open>a || b\<close> on an optional string: \<open>b\<close> when \<open>a\<close> is undefined or empty.\<close>

definition or_else :: "jsstring option \<Rightarrow> jsstring \<Rightarrow> jsstring" where
  "or_else a b = (case a of None \<Rightarrow> b | Some x \<Rightarrow> if x = [] then b else x)"

text \<open>
  The arrow function mapped over the pairs. The destructuring
  \<^verbatim>\<open>const [name, ...valueParts] = pair.trim().split('=')\<close> leaves \<^verbatim>\<open>name\<close> undefined on
  an empty array, and \<^verbatim>\<open>name.trim()\<close> then throws a TypeError.
\<close>

definition parsePair :: "jsstring \<Rightarrow> jsstring \<Rightarrow> thrown + CookieParam" where
  "parsePair domain pair =
     (case split_js EQ (trim pair) of
        [] \<Rightarrow> Inl (Error (js ''Cannot read properties of undefined''))
      | name # valueParts \<Rightarrow>
          Inr \<lparr>c_name = trim name, c_value = trim (join_js [EQ] valueParts),
               c_domain = Some domain, c_path = None\<rparr>)"

text \<open>\<^verbatim>\<open>xs.map(f)\<close> for an \<open>f\<close> that may throw: the first throw ends the map.\<close>

fun map_throwing :: "('a \<Rightarrow> thrown + 'b) \<Rightarrow> 'a list \<Rightarrow> thrown + 'b list" where
  "map_throwing f [] = Inr []"
| "map_throwing f (x # xs) =
     (case f x of
        Inl e \<Rightarrow> Inl e
      | Inr y \<Rightarrow> (case map_throwing f xs of Inl e \<Rightarrow> Inl e | Inr ys \<Rightarrow> Inr (y # ys)))"

definition parseCookies :: "cookies_arg option \<Rightarrow> jsstring \<Rightarrow> thrown + CookieParam list" where
  "parseCookies cookies domain =
     (case cookies of
        None \<Rightarrow> Inr []
      | Some (CookieArray cs) \<Rightarrow>
          Inr (map (\<lambda>c. c\<lparr>c_domain := Some (or_else (c_domain c) domain)\<rparr>) cs)
      | Some (CookieString s) \<Rightarrow>
          if s = [] then Inr []
          else (case map_throwing (parsePair domain) (split_js SEMI s) of
                  Inl e \<Rightarrow> Inl e
                | Inr cs \<Rightarrow> Inr (filter (\<lambda>c. c_name c \<noteq> [] \<and> c_value c \<noteq> []) cs)))"

section \<open>More string operations of the extraction scripts\<close>

text \<open>\<^verbatim>\<open>a || b\<close> on strings: \<open>b\<close> when \<open>a\<close> is empty.\<close>

definition or_str :: "jsstring \<Rightarrow> jsstring \<Rightarrow> jsstring" where
  "or_str a b = (if a = [] then b else a)"

text \<open>\<^verbatim>\<open>s.replace(/pat/g, rep)\<close> for a pattern that is a fixed, non-empty text.\<close>

function replaceAll_js :: "jsstring \<Rightarrow> jsstring \<Rightarrow> jsstring \<Rightarrow> jsstring" where
  "replaceAll_js pat rep [] = []"
| "replaceAll_js pat rep (c # cs) =
     (if pat \<noteq> [] \<and> prefix pat (c # cs)
      then rep @ replaceAll_js pat rep (drop (length pat) (c # cs))
      else c # replaceAll_js pat rep cs)"
  by pat_completeness auto
termination
  by (relation "measure (\<lambda>(pat, rep, s). length s)") (auto simp: neq_Nil_conv)

text \<open>\<^verbatim>\<open>s.replace(pat, rep)\<close> for a string \<open>pat\<close>: the first occurrence only.\<close>

fun replaceFirst_js :: "jsstring \<Rightarrow> jsstring \<Rightarrow> jsstring \<Rightarrow> jsstring" where
  "replaceFirst_js pat rep [] = (if pat = [] then rep else [])"
| "replaceFirst_js pat rep (c # cs) =
     (if prefix pat (c # cs) then rep @ drop (length pat) (c # cs)
      else c # replaceFirst_js pat rep cs)"

text \<open>\<^verbatim>\<open>s.indexOf(t)\<close>; \<open>None\<close> is \<^verbatim>\<open>-1\<close>.\<close>

fun indexOf_js :: "jsstring \<Rightarrow> jsstring \<Rightarrow> nat option" where
  "indexOf_js [] t = (if t = [] then Some 0 else None)"
| "indexOf_js (c # cs) t =
     (if prefix t (c # cs) then Some 0 else map_option Suc (indexOf_js cs t))"

text \<open>\<^verbatim>\<open>s.substring(a, b)\<close> for \<open>a \<le> b\<close>.\<close>

definition substring :: "jsstring \<Rightarrow> nat \<Rightarrow> nat \<Rightarrow> jsstring" where
  "substring s a b = take (b - a) (drop a s)"

text \<open>\<^verbatim>\<open>s.split(sep)[0]\<close>.\<close>

definition first_piece :: "jschar \<Rightarrow> jsstring \<Rightarrow> jsstring" where
  "first_piece sep s = (case split_js sep s of [] \<Rightarrow> [] | p # ps \<Rightarrow> p)"

text \<open>
  \<^verbatim>\<open>.replace(/\\u002F/g, '/').replace(/\\\//g, '/')\<close>: every backslash followed by
  \<^verbatim>\<open>u002F\<close>, then every backslash followed by a slash, becomes a slash.
\<close>

definition unescape_slashes :: "jsstring \<Rightarrow> jsstring" where
  "unescape_slashes u =
     replaceAll_js [92, 47] [47] (replaceAll_js [92, 117, 48, 48, 50, 70] [47] u)"

text \<open>
  \<^verbatim>\<open>if (ok(u) && !vids.includes(u)) vids.push(u)\<close>, and the same over the candidates of
  one or several loops in the order the loops visit them. The candidates never depend on
  the array being filled, so nested loops are one pass over their candidates.
\<close>

definition push_if :: "(jsstring \<Rightarrow> bool) \<Rightarrow> jsstring list \<Rightarrow> jsstring \<Rightarrow> jsstring list" where
  "push_if ok vids u = (if ok u \<and> \<not> List.member vids u then vids @ [u] else vids)"

definition push_all :: "(jsstring \<Rightarrow> bool) \<Rightarrow> jsstring list \<Rightarrow> jsstring list \<Rightarrow> jsstring list" where
  "push_all ok vids us = foldl (push_if ok) vids us"

text \<open>\<^verbatim>\<open>[...new Set(xs)]\<close>: the first occurrence of each element, in order.\<close>

definition spread_set :: "jsstring list \<Rightarrow> jsstring list" where
  "spread_set xs = push_all (\<lambda>u. True) [] xs"

definition nonempty :: "jsstring \<Rightarrow> bool" where
  "nonempty s = (s \<noteq> [])"

section \<open>The page as the extraction strategies see it\<close>

text \<open>
  The browser is outside the repository. A strategy reaches it through Playwright calls
  (\<^verbatim>\<open>page.title()\<close>, \<^verbatim>\<open>page.$eval\<close>, \<^verbatim>\<open>page.$$eval\<close>, \<^verbatim>\<open>page.evaluate\<close>, the
  waits), and the scripts it sends read the document through \<^verbatim>\<open>querySelectorAll\<close>,
  attributes, \<^verbatim>\<open>textContent\<close> and the markup of the body. The model gives a page the
  outcome of each such call.

  An element: its \<^verbatim>\<open>textContent\<close>, its \<^verbatim>\<open>src\<close> property (empty when it has none), its
  attributes (\<open>None\<close> is \<^verbatim>\<open>null\<close>) and the \<^verbatim>\<open>textContent\<close> of its \<^verbatim>\<open>parentElement\<close>
  (\<open>None\<close> when it has no parent).
\<close>

record element =
  el_text :: jsstring
  el_src :: jsstring
  el_attr :: "jsstring \<Rightarrow> jsstring option"
  el_parentText :: "jsstring option"

record dom =
  querySelectorAll :: "jsstring \<Rightarrow> element list"
  innerHTML :: jsstring
  innerText :: jsstring

text \<open>
  One run of a strategy makes each of its browser calls once. \<open>page_dom\<close> maps a call,
  named by its selector (or by a label for \<^verbatim>\<open>page.evaluate\<close>), to the document it runs
  on, \<open>None\<close> when the call is rejected (page closed, context destroyed);
  \<open>page_wait\<close> maps a wait, named by a label, to what it throws.
\<close>

record page =
  page_title :: "thrown + jsstring"
  page_wait :: "jsstring \<Rightarrow> thrown option"
  page_dom :: "jsstring \<Rightarrow> dom option"

text \<open>\<^verbatim>\<open>page.$eval(selector, f)\<close>: \<open>f\<close> on the first match; rejected when there is none.\<close>

definition eval1 :: "page \<Rightarrow> jsstring \<Rightarrow> (element \<Rightarrow> 'a) \<Rightarrow> 'a option" where
  "eval1 p selector f =
     (case page_dom p selector of
        None \<Rightarrow> None
      | Some d \<Rightarrow> (case querySelectorAll d selector of [] \<Rightarrow> None | e # es \<Rightarrow> Some (f e)))"

text \<open>\<^verbatim>\<open>page.$$eval(selector, f)\<close>: \<open>f\<close> on the array of all matches.\<close>

definition evalAll :: "page \<Rightarrow> jsstring \<Rightarrow> (element list \<Rightarrow> 'a) \<Rightarrow> 'a option" where
  "evalAll p selector f = map_option (\<lambda>d. f (querySelectorAll d selector)) (page_dom p selector)"

text \<open>\<^verbatim>\<open>page.evaluate(script)\<close>.\<close>

definition evaluate :: "page \<Rightarrow> jsstring \<Rightarrow> (dom \<Rightarrow> 'a) \<Rightarrow> 'a option" where
  "evaluate p label script = map_option script (page_dom p label)"

text \<open>\<^verbatim>\<open>promise.catch(() => v)\<close>.\<close>

definition catch_or :: "'a option \<Rightarrow> 'a \<Rightarrow> 'a" where
  "catch_or r v = (case r of None \<Rightarrow> v | Some x \<Rightarrow> x)"

text \<open>
  The regular expressions that the scripts run over the markup, each named after its
  source:
  \<^verbatim>\<open>
  Zhihu_play_url     /"play_url"\s*:\s*"([^"]+)"/g
  Zhihu_video_url    /"video_url"\s*:\s*"([^"]+)"/g
  Zhihu_playUrl      /"playUrl"\s*:\s*"([^"]+)"/g
  Tw_video_url       /"video_url"\s*:\s*"([^"]+)"/g
  Tw_playbackUrl     /"playbackUrl"\s*:\s*"([^"]+)"/g
  Tw_src             /src="([^"]*video\.twimg\.com[^"]+)"/g
  Tw_variants        /"variants"\s*:\s*\[[^\]]*"url"\s*:\s*"([^"]+\.mp4[^"]*)"/g
  Tw_url             /"url"\s*:\s*"([^"]*video\.twimg\.com[^"]+\.mp4[^"]*)"/g
  Wx_data_src        /data-src="([^"]+\.mp4[^"]*)"/g
  Wx_url_info        /"url_info"\s*:\s*\{[^}]*"url"\s*:\s*"([^"]+)"/g
  Wx_video_quality   /"video_quality_\d+"\s*:\s*\[\s*\{[^}]*"url"\s*:\s*"([^"]+)"/g
  Wx_getvideourl     /getvideourl[^"]*"([^"]+\.mp4[^"]*)"/g
  Gen_video_url      /"(?:video_?url|videoUrl|video_src|stream_url|playUrl)"\s*:\s*"([^"]+)"/g
  Gen_src            /src="([^"]+\.(?:mp4|m3u8|webm)[^"]*)"/gi
  Gen_data_src       /data-(?:video-)?src="([^"]+\.(?:mp4|m3u8|webm)[^"]*)"/gi
  Xhs_imageList      /"imageList"\s*:\s*\[([^\]]+)\]/g
  Xhs_urlDefault     /"urlDefault"\s*:\s*"([^"]+)"/g
  Xhs_webpic         /"[^"]*(?:webpic|sns-webpic)[^"]*xhscdn[^"]+"/g
  Xhs_masterUrl      /"masterUrl"\s*:\s*"([^"]+)"/g
  Xhs_videoUrl       /"videoUrl"\s*:\s*"([^"]+)"/g
  Xhs_url            /"url"\s*:\s*"([^"]*sns-video[^"]+)"/g
  Xhs_time           /(\d+\<dots>|\d+\<dots>|\d+\<dots>|\<dots>.+?(?:\s|$)|\<dots>.+?(?:\s|$))/
  \<close>
  The engine that runs them is the browser's: \<open>rx pat s\<close> is the list of successive
  matches of \<open>pat\<close> in \<open>s\<close>, each as the matched text and the text of its group 1.
\<close>

datatype pattern =
    Zhihu_play_url | Zhihu_video_url | Zhihu_playUrl
  | Tw_video_url | Tw_playbackUrl | Tw_src | Tw_variants | Tw_url
  | Wx_data_src | Wx_url_info | Wx_video_quality | Wx_getvideourl
  | Gen_video_url | Gen_src | Gen_data_src
  | Xhs_imageList | Xhs_urlDefault | Xhs_webpic
  | Xhs_masterUrl | Xhs_videoUrl | Xhs_url
  | Xhs_time

type_synonym regex_engine = "pattern \<Rightarrow> jsstring \<Rightarrow> (jsstring \<times> jsstring) list"

text \<open>The \<^verbatim>\<open>while ((match = pattern.exec(pageContent)) !== null)\<close> loops: group 1 of
  every match of every pattern, patterns in order.\<close>

definition captures :: "regex_engine \<Rightarrow> pattern list \<Rightarrow> jsstring \<Rightarrow> jsstring list" where
  "captures rx pats s = concat (map (\<lambda>pat. map snd (rx pat s)) pats)"

text \<open>\<^verbatim>\<open>Partial<CrawlResult>\<close> as a strategy returns it; \<open>None\<close> is a field left out.\<close>

record Extracted =
  x_title :: "jsstring option"
  x_author :: "jsstring option"
  x_content :: "jsstring option"
  x_images :: "jsstring list option"
  x_videos :: "jsstring list option"
  x_publishedAt :: "jsstring option"

section \<open>crawlers/zhihu.ts\<close>

text \<open>\<^verbatim>\<open>video.src || video.getAttribute('data-src') || ''\<close> and its kin.\<close>

definition src_or_data_src :: "element \<Rightarrow> jsstring" where
  "src_or_data_src e = or_str (el_src e) (or_else (el_attr e (js ''data-src'')) [])"

definition attr_or_empty :: "jsstring \<Rightarrow> element \<Rightarrow> jsstring" where
  "attr_or_empty a e = or_else (el_attr e a) []"

definition zhihu_videos_script :: "regex_engine \<Rightarrow> dom \<Rightarrow> jsstring list" where
  "zhihu_videos_script rx d =
     (let videos =
            filter nonempty (map src_or_data_src (querySelectorAll d (js ''video'')))
          @ filter nonempty (map (attr_or_empty (js ''src'')) (querySelectorAll d (js ''video source'')))
          @ filter nonempty (map (attr_or_empty (js ''data-video'')) (querySelectorAll d (js ''[data-video]'')))
          @ filter nonempty (map unescape_slashes
              (captures rx [Zhihu_play_url, Zhihu_video_url, Zhihu_playUrl] (innerHTML d)))
      in slice0 10 (spread_set videos))"

definition zhihu_extractVideos :: "regex_engine \<Rightarrow> page \<Rightarrow> jsstring list" where
  "zhihu_extractVideos rx p =
     catch_or (evaluate p (js ''extractVideos'') (zhihu_videos_script rx)) []"

text \<open>The \<^verbatim>\<open>$$eval\<close> callback of both image queries:
  \<^verbatim>\<open>img.getAttribute('src') || img.getAttribute('data-original') || ''\<close>, then
  \<^verbatim>\<open>filter(Boolean)\<close>.\<close>

definition zhihu_img_srcs :: "element list \<Rightarrow> jsstring list" where
  "zhihu_img_srcs imgs =
     filter nonempty
       (map (\<lambda>img. or_str (attr_or_empty (js ''src'') img) (attr_or_empty (js ''data-original'') img)) imgs)"

definition zhihu_extractArticle :: "regex_engine \<Rightarrow> page \<Rightarrow> thrown + Extracted" where
  "zhihu_extractArticle rx p =
     (let title_text = catch_or (eval1 p (js ''h1.Post-Title, .Post-Title'') el_text) [];
          author_text = catch_or (eval1 p (js ''.AuthorInfo-name, .UserLink-link'') el_text) [];
          content_text = catch_or (eval1 p (js ''.Post-RichTextContainer, .RichText'') el_text) [];
          imgs = catch_or (evalAll p (js ''.Post-RichTextContainer img, .RichText img'') zhihu_img_srcs) [];
          vids = zhihu_extractVideos rx p;
          published = catch_or (eval1 p (js ''.ContentItem-time, .Post-Time'') el_text) []
      in case (if title_text \<noteq> [] then Inr title_text else page_title p) of
           Inl e \<Rightarrow> Inl e
         | Inr pageTitle \<Rightarrow>
             Inr \<lparr>x_title = Some (cleanText pageTitle), x_author = Some (cleanText author_text),
                  x_content = Some (cleanText content_text), x_images = Some imgs,
                  x_videos = Some vids, x_publishedAt = Some (cleanText published)\<rparr>)"

definition zhihu_extractAnswer :: "regex_engine \<Rightarrow> page \<Rightarrow> thrown + Extracted" where
  \<open>zhihu_extractAnswer rx p =
     (let title_text = catch_or (eval1 p (js ''h1.QuestionHeader-title, .QuestionHeader-title'') el_text) [];
          author_text = catch_or (eval1 p (js ''.AuthorInfo-name, .AnswerItem .UserLink-link'') el_text) [];
          content1 = catch_or (eval1 p (js ''.RichContent-inner .RichText'') el_text) [];
          content2 = (if content1 = []
                      then catch_or (eval1 p (js ''.AnswerItem .RichContent-inner'') el_text) []
                      else content1);
          content3 = (if content2 = []
                      then catch_or (eval1 p (js ''[class*="RichContent"] [class*="RichText"]'') el_text) []
                      else content2);
          imgs = catch_or (evalAll p (js ''.RichContent-inner img'') zhihu_img_srcs) [];
          vids = zhihu_extractVideos rx p;
          published = catch_or (eval1 p (js ''.ContentItem-time span, .AnswerItem-time'') el_text) []
      in case (if title_text \<noteq> [] then Inr title_text else page_title p) of
           Inl e \<Rightarrow> Inl e
         | Inr pageTitle \<Rightarrow>
             Inr \<lparr>x_title = Some (cleanText pageTitle), x_author = Some (cleanText author_text),
                  x_content = Some (cleanText content3), x_images = Some imgs,
                  x_videos = Some vids, x_publishedAt = Some (cleanText published)\<rparr>)\<close>

definition zhihu_extractGeneric :: "regex_engine \<Rightarrow> page \<Rightarrow> thrown + Extracted" where
  "zhihu_extractGeneric rx p =
     (case page_title p of
        Inl e \<Rightarrow> Inl e
      | Inr title_text \<Rightarrow>
          (let content_text = catch_or (eval1 p (js ''body'') el_text) [];
               vids = zhihu_extractVideos rx p
           in Inr \<lparr>x_title = Some title_text, x_author = None,
                   x_content = Some (slice0 5000 (cleanText content_text)), x_images = Some [],
                   x_videos = Some vids, x_publishedAt = None\<rparr>))"

text \<open>The wait for the content selector ends in \<^verbatim>\<open>.catch(() => {})\<close> and returns nothing.\<close>

definition zhihu_extract :: "regex_engine \<Rightarrow> page \<Rightarrow> jsstring \<Rightarrow> thrown + Extracted" where
  "zhihu_extract rx p target =
     (let isArticle = includes_js target (js ''/p/'');
          isAnswer = includes_js target (js ''/answer/'')
      in if isArticle then zhihu_extractArticle rx p
         else if isAnswer then zhihu_extractAnswer rx p
         else zhihu_extractGeneric rx p)"

section \<open>crawlers/twitter.ts\<close>

definition twitter_isValidVideo :: "jsstring \<Rightarrow> bool" where
  "twitter_isValidVideo u =
     (if u = [] \<or> prefix (js ''blob:'') u then False
      else includes_js u (js ''video.twimg.com'') \<or> includes_js u (js ''.mp4''))"

definition twitter_videos_script :: "regex_engine \<Rightarrow> dom \<Rightarrow> jsstring list" where
  "twitter_videos_script rx d =
     (let vids1 = push_all twitter_isValidVideo [] (map el_src (querySelectorAll d (js ''video'')));
          vids2 = push_all twitter_isValidVideo vids1
                    (map (attr_or_empty (js ''src'')) (querySelectorAll d (js ''video source'')));
          vids3 = push_all twitter_isValidVideo vids2
                    (map unescape_slashes
                       (captures rx [Tw_video_url, Tw_playbackUrl, Tw_src, Tw_variants, Tw_url]
                          (innerHTML d)))
      in slice0 10 vids3)"

definition twitter_extract :: "regex_engine \<Rightarrow> page \<Rightarrow> jsstring \<Rightarrow> thrown + Extracted" where
  \<open>twitter_extract rx p target =
     (case page_wait p (js ''extract:waitForTimeout(2000)'') of
        Some e \<Rightarrow> Inl e
      | None \<Rightarrow>
          (let content_text = catch_or (eval1 p (js ''article [data-testid="tweetText"]'') el_text) [];
               author_text = catch_or (eval1 p (js ''article [data-testid="User-Name"]'') el_text) [];
               imgs = catch_or (evalAll p (js ''article [data-testid="tweetPhoto"] img'')
                          (\<lambda>imgs. filter nonempty (map (attr_or_empty (js ''src'')) imgs))) [];
               vids = catch_or (evaluate p (js ''videos'') (twitter_videos_script rx)) [];
               published = catch_or (eval1 p (js ''article time'')
                          (\<lambda>el. or_str (attr_or_empty (js ''datetime'') el) (el_text el))) []
           in case page_title p of
                Inl e \<Rightarrow> Inl e
              | Inr pageTitle \<Rightarrow>
                  Inr \<lparr>x_title = Some (cleanText (replaceFirst_js (js '' on X:'') (js '': '')
                                                    (replaceFirst_js (js '' / X'') [] pageTitle))),
                       x_author = Some (cleanText author_text),
                       x_content = Some (cleanText content_text), x_images = Some imgs,
                       x_videos = Some vids, x_publishedAt = Some published\<rparr>))\<close>

section \<open>The WeChat strategy\<close>

definition wechat_videos_script :: "regex_engine \<Rightarrow> dom \<Rightarrow> jsstring list" where
  "wechat_videos_script rx d =
     (let vids1 = push_all nonempty [] (map src_or_data_src (querySelectorAll d (js ''video'')));
          vids2 = push_all nonempty vids1
                    (map (attr_or_empty (js ''src'')) (querySelectorAll d (js ''video source'')));
          vids3 = push_all (\<lambda>u. u \<noteq> [] \<and> (includes_js u (js ''video'') \<or> includes_js u (js ''v.qq.com'')))
                    vids2 (map src_or_data_src (querySelectorAll d (js ''iframe'')));
          vids4 = push_all nonempty vids3
                    (map (attr_or_empty (js ''data-src'')) (querySelectorAll d (js ''[data-vidtype]'')));
          vids5 = push_all nonempty vids4
                    (map unescape_slashes
                       (captures rx [Wx_data_src, Wx_url_info, Wx_video_quality, Wx_getvideourl]
                          (innerHTML d)))
      in slice0 10 vids5)"

text \<open>No call of this strategy is without a \<^verbatim>\<open>catch\<close>: it never throws.\<close>

definition wechat_extract :: "regex_engine \<Rightarrow> page \<Rightarrow> jsstring \<Rightarrow> thrown + Extracted" where
  "wechat_extract rx p target =
     (let title_text = catch_or (eval1 p (js ''#activity-name, .rich_media_title'') el_text) [];
          author_text = catch_or (eval1 p (js ''#js_name, .profile_nickname'') el_text) [];
          content_text = catch_or (eval1 p (js ''#js_content'') el_text) [];
          imgs = catch_or (evalAll p (js ''#js_content img'')
                     (\<lambda>imgs. filter nonempty
                        (map (\<lambda>img. or_str (attr_or_empty (js ''data-src'') img)
                                             (attr_or_empty (js ''src'') img)) imgs))) [];
          vids = catch_or (evaluate p (js ''videos'') (wechat_videos_script rx)) [];
          published = catch_or (eval1 p (js ''#publish_time, .publish_time'') el_text) []
      in Inr \<lparr>x_title = Some (cleanText title_text), x_author = Some (cleanText author_text),
              x_content = Some (cleanText content_text), x_images = Some (spread_set imgs),
              x_videos = Some vids, x_publishedAt = Some (cleanText published)\<rparr>)"

section \<open>crawlers/xiaohongshu.ts\<close>

text \<open>What the strategy returns at a login wall and from its outer \<^verbatim>\<open>catch\<close>.\<close>

definition xhs_empty :: Extracted where
  "xhs_empty = \<lparr>x_title = Some [], x_author = None, x_content = Some [], x_images = Some [],
                 x_videos = Some [], x_publishedAt = None\<rparr>"

text \<open>The literals of the source that are not ASCII, as code units.\<close>

definition lit_login :: jsstring where "lit_login = [30331, 24405]"
definition lit_title_suffix :: jsstring where "lit_title_suffix = [32, 45, 32, 23567, 32418, 20070]"
definition lit_me :: jsstring where "lit_me = [25105]"
definition lit_full_stop :: jsstring where "lit_full_stop = [12290]"
definition lit_icp :: jsstring where "lit_icp = [27818, 73, 67, 80, 22791]"
definition lit_licence :: jsstring where "lit_licence = [33829, 19994, 25191, 29031]"
definition timePatterns :: "jsstring list" where
  "timePatterns = [[32534, 36753, 20110], [21457, 24067, 20110], [22825, 21069],
                   [23567, 26102, 21069], [20998, 38047, 21069]]"

definition xhs_author_script :: "dom \<Rightarrow> jsstring" where
  \<open>xhs_author_script d =
     (case filter (\<lambda>t. t \<noteq> [] \<and> length t > 1 \<and> length t < 50 \<and> t \<noteq> lit_me
                        \<and> \<not> includes_js t (js ''http''))
             (map (\<lambda>link. trim (el_text link))
                (querySelectorAll d (js ''a[href*="/user/profile/"]''))) of
        [] \<Rightarrow> []
      | t # ts \<Rightarrow> t)\<close>

definition xhs_content_script :: "dom \<Rightarrow> jsstring" where
  \<open>xhs_content_script d =
     (case (case querySelectorAll d (js ''a[href*="/search_result?keyword="]'') of
              [] \<Rightarrow> None
            | link # links \<Rightarrow> el_parentText link) of
        Some t \<Rightarrow> t
      | None \<Rightarrow>
          (case filter (\<lambda>t. length t > 50 \<and> length t < 5000
                            \<and> (includes_js t (js ''#'') \<or> includes_js t (js ''['')
                                 \<or> includes_js t lit_full_stop)
                            \<and> \<not> includes_js t lit_icp \<and> \<not> includes_js t lit_licence)
                  (map el_text (querySelectorAll d (js ''div''))) of
             [] \<Rightarrow> []
           | t # ts \<Rightarrow> t))\<close>

definition xhs_is_note_image :: "jsstring \<Rightarrow> bool" where
  "xhs_is_note_image s =
     (includes_js s (js ''xhscdn.com'')
      \<and> (includes_js s (js ''webpic'') \<or> includes_js s (js ''sns-webpic''))
      \<and> \<not> includes_js s (js ''avatar'') \<and> \<not> includes_js s (js ''icon'')
      \<and> \<not> includes_js s (js ''logo'') \<and> \<not> includes_js s (js ''.js'')
      \<and> \<not> includes_js s (js ''fe-static''))"

definition xhs_images_script :: "regex_engine \<Rightarrow> dom \<Rightarrow> jsstring list" where
  "xhs_images_script rx d =
     (let imgs1 = push_all (\<lambda>u. True) []
                    (map (first_piece 63)
                       (filter xhs_is_note_image
                          (map src_or_data_src (querySelectorAll d (js ''img'')))));
          urlMatches = concat (map (\<lambda>content_text. map fst (rx Xhs_webpic content_text))
                                 (captures rx [Xhs_imageList, Xhs_urlDefault] (innerHTML d)));
          imgs2 = push_all (\<lambda>u. u \<noteq> [] \<and> \<not> includes_js u (js ''avatar'')
                                 \<and> \<not> includes_js u (js ''.js''))
                    imgs1
                    (map (\<lambda>urlMatch. first_piece 63
                            (replaceAll_js [92, 117, 48, 48, 50, 70] [47]
                               (replaceAll_js [34] [] urlMatch)))
                       urlMatches)
      in slice0 20 imgs2)"

definition xhs_isValidVideo :: "jsstring \<Rightarrow> bool" where
  "xhs_isValidVideo u =
     (if u = [] \<or> prefix (js ''blob:'') u then False
      else includes_js u (js ''sns-video'') \<or> includes_js u (js ''.mp4'')
           \<or> includes_js u (js ''stream''))"

definition xhs_videos_script :: "regex_engine \<Rightarrow> dom \<Rightarrow> jsstring list" where
  "xhs_videos_script rx d =
     (let vids1 = push_all xhs_isValidVideo [] (map src_or_data_src (querySelectorAll d (js ''video'')));
          vids2 = push_all xhs_isValidVideo vids1
                    (map (attr_or_empty (js ''src'')) (querySelectorAll d (js ''video source'')));
          vids3 = push_all xhs_isValidVideo vids2
                    (map (\<lambda>m. let u = unescape_slashes m
                               in if prefix (js ''//'') u then js ''https:'' @ u else u)
                       (captures rx [Xhs_masterUrl, Xhs_videoUrl, Xhs_url] (innerHTML d)))
      in slice0 10 vids3)"

fun xhs_time_scan :: "regex_engine \<Rightarrow> jsstring \<Rightarrow> jsstring list \<Rightarrow> jsstring" where
  "xhs_time_scan rx allText [] = []"
| "xhs_time_scan rx allText (pat # pats) =
     (case indexOf_js allText pat of
        None \<Rightarrow> xhs_time_scan rx allText pats
      | Some index \<Rightarrow>
          (let start = index - 10;
               end_ix = min (length allText) (index + 20);
               timeText = trim (substring allText start end_ix)
           in case rx Xhs_time timeText of
                [] \<Rightarrow> xhs_time_scan rx allText pats
              | m # ms \<Rightarrow> trim (fst m)))"

definition xhs_time_script :: "regex_engine \<Rightarrow> dom \<Rightarrow> jsstring" where
  "xhs_time_script rx d = xhs_time_scan rx (innerText d) timePatterns"

text \<open>
  The whole body is inside \<^verbatim>\<open>try\<close>: a throw of \<^verbatim>\<open>page.waitForTimeout(500)\<close> or of
  \<^verbatim>\<open>page.title()\<close> ends in the outer \<^verbatim>\<open>catch\<close>. The page argument is the only one.
\<close>

definition xhs_extract :: "regex_engine \<Rightarrow> page \<Rightarrow> jsstring \<Rightarrow> thrown + Extracted" where
  "xhs_extract rx p target =
     (case page_wait p (js ''extract:waitForTimeout(500)'') of
        Some e \<Rightarrow> Inr xhs_empty
      | None \<Rightarrow>
          (case page_title p of
             Inl e \<Rightarrow> Inr xhs_empty
           | Inr pageTitle \<Rightarrow>
               if includes_js pageTitle lit_login \<and> \<not> includes_js pageTitle lit_title_suffix
               then Inr \<lparr>x_title = Some [], x_author = None, x_content = Some [],
                         x_images = Some [], x_videos = Some [], x_publishedAt = None\<rparr>
               else
                 (let title_text = (if includes_js pageTitle lit_title_suffix
                                    then replaceFirst_js lit_title_suffix [] pageTitle else []);
                      author_text = catch_or (evaluate p (js ''author'') xhs_author_script) [];
                      content_text = catch_or (evaluate p (js ''content'') xhs_content_script) [];
                      imgs = catch_or (evaluate p (js ''images'') (xhs_images_script rx)) [];
                      vids = catch_or (evaluate p (js ''videos'') (xhs_videos_script rx)) [];
                      published = catch_or (evaluate p (js ''publishedAt'') (xhs_time_script rx)) []
                  in Inr \<lparr>x_title = Some (cleanText title_text),
                          x_author = Some (cleanText author_text),
                          x_content = Some (cleanText content_text), x_images = Some imgs,
                          x_videos = Some vids, x_publishedAt = Some (cleanText published)\<rparr>)))"

section \<open>The generic strategy\<close>

definition contentSelectors :: "jsstring list" where
  "contentSelectors = [js ''article'', js ''main'', js ''.content'', js ''.post-content'',
                       js ''.article-content'', js ''#content'', js ''.entry-content'']"

text \<open>
  The loop over the selectors, started with \<^verbatim>\<open>content = ''\<close>. A selector whose
  \<^verbatim>\<open>$eval\<close> is rejected is skipped by \<^verbatim>\<open>catch { continue }\<close>; any other assigns its
  text to \<^verbatim>\<open>content\<close>, and the loop breaks when that text is longer than 100.
\<close>

fun pickContent :: "page \<Rightarrow> jsstring \<Rightarrow> jsstring list \<Rightarrow> jsstring" where
  "pickContent p content_text [] = content_text"
| "pickContent p content_text (selector # rest) =
     (case eval1 p selector el_text of
        None \<Rightarrow> pickContent p content_text rest
      | Some t \<Rightarrow> if length t > 100 then t else pickContent p t rest)"

definition generic_videos_script :: "regex_engine \<Rightarrow> dom \<Rightarrow> jsstring list" where
  "generic_videos_script rx d =
     (let vids1 = push_all nonempty [] (map src_or_data_src (querySelectorAll d (js ''video'')));
          vids2 = push_all nonempty vids1
                    (map (attr_or_empty (js ''src'')) (querySelectorAll d (js ''video source'')));
          vids3 = push_all nonempty vids2
                    (map unescape_slashes
                       (captures rx [Gen_video_url, Gen_src, Gen_data_src] (innerHTML d)))
      in slice0 10 vids3)"

definition generic_extract :: "regex_engine \<Rightarrow> page \<Rightarrow> jsstring \<Rightarrow> thrown + Extracted" where
  \<open>generic_extract rx p target =
     (case page_title p of
        Inl e \<Rightarrow> Inl e
      | Inr title_text \<Rightarrow>
          (let content1 = pickContent p [] contentSelectors;
               content2 = (if content1 = [] then catch_or (eval1 p (js ''body'') el_text) []
                           else content1);
               imgs = catch_or (evalAll p (js ''img'')
                          (\<lambda>imgs. slice0 20
                             (filter (\<lambda>s. s \<noteq> [] \<and> \<not> includes_js s (js ''data:'') \<and> length s < 500)
                                (map (attr_or_empty (js ''src'')) imgs)))) [];
               vids = catch_or (evaluate p (js ''videos'') (generic_videos_script rx)) [];
               author_text = catch_or (eval1 p (js ''[rel="author"], .author, .byline, [class*="author"]'')
                                el_text) []
           in Inr \<lparr>x_title = Some title_text, x_author = Some (cleanText author_text),
                   x_content = Some (slice0 10000 (cleanText content2)), x_images = Some imgs,
                   x_videos = Some vids, x_publishedAt = None\<rparr>))\<close>

section \<open>crawlers/index.ts: the registry\<close>

text \<open>The types file: \<^verbatim>\<open>CrawlResult\<close>.\<close>

record CrawlResult =
  success :: bool
  platform :: Platform
  url :: jsstring
  title :: jsstring
  author :: "jsstring option"
  content :: jsstring
  images :: "jsstring list"
  videos :: "jsstring list"
  publishedAt :: "jsstring option"
  crawledAt :: jsstring
  error :: "jsstring option"

text \<open>A subclass of \<^verbatim>\<open>BaseCrawler\<close>: its \<^verbatim>\<open>platform\<close>, \<^verbatim>\<open>getDomain()\<close> and
  \<^verbatim>\<open>extract\<close>.\<close>

record Crawler =
  cr_platform :: Platform
  getDomain :: jsstring
  cr_extract :: "page \<Rightarrow> jsstring \<Rightarrow> thrown + Extracted"

definition ZhihuCrawler :: "regex_engine \<Rightarrow> Crawler" where
  "ZhihuCrawler rx = \<lparr>cr_platform = Zhihu, getDomain = js ''.zhihu.com'', cr_extract = zhihu_extract rx\<rparr>"

definition XiaohongshuCrawler :: "regex_engine \<Rightarrow> Crawler" where
  "XiaohongshuCrawler rx =
     \<lparr>cr_platform = Xiaohongshu, getDomain = js ''.xiaohongshu.com'',
      cr_extract = xhs_extract rx\<rparr>"

definition TwitterCrawler :: "regex_engine \<Rightarrow> Crawler" where
  "TwitterCrawler rx = \<lparr>cr_platform = Twitter, getDomain = js ''.x.com'', cr_extract = twitter_extract rx\<rparr>"

definition WechatCrawler :: "regex_engine \<Rightarrow> Crawler" where
  "WechatCrawler rx = \<lparr>cr_platform = Wechat, getDomain = js ''.qq.com'', cr_extract = wechat_extract rx\<rparr>"

definition GenericCrawler :: "regex_engine \<Rightarrow> Crawler" where
  "GenericCrawler rx = \<lparr>cr_platform = Unknown, getDomain = [], cr_extract = generic_extract rx\<rparr>"

fun getCrawler :: "regex_engine \<Rightarrow> Platform \<Rightarrow> Crawler" where
  "getCrawler rx Zhihu = ZhihuCrawler rx"
| "getCrawler rx Xiaohongshu = XiaohongshuCrawler rx"
| "getCrawler rx Twitter = TwitterCrawler rx"
| "getCrawler rx Wechat = WechatCrawler rx"
| "getCrawler rx Unknown = GenericCrawler rx"

section \<open>The base crawler: \<^verbatim>\<open>BaseCrawler.crawl\<close>\<close>

text \<open>The options of a call; \<open>None\<close> is a field left out. A number is a real here.\<close>

record CrawlOptions =
  opt_timeout :: "real option"
  opt_cookies :: "cookies_arg option"

text \<open>
  Crawlee, the library that runs the browser session, is outside the repository. The
  executor of the promise calls two of its constructors before any callback exists:
  \<^verbatim>\<open>new Configuration({persistStorage: false, purgeOnStart: true})\<close>, and
  \<^verbatim>\<open>new PlaywrightCrawler({...}, config)\<close> with \<^verbatim>\<open>requestHandlerTimeoutSecs\<close> and
  \<^verbatim>\<open>navigationTimeoutSecs\<close>, the only options that are not constants. The library
  checks the options it is given, so a constructor may throw; \<open>None\<close> is a
  constructor that returns.
\<close>

record Crawlee =
  newConfiguration :: "thrown option"
  newPlaywrightCrawler :: "real \<Rightarrow> real \<Rightarrow> thrown option"

text \<open>
  The executor up to \<^verbatim>\<open>crawler.run([url])\<close>, with the default
  \<^verbatim>\<open>timeout = 30000\<close> of the destructuring and \<^verbatim>\<open>timeout / 1000\<close> for both
  timeouts: what it throws, if anything.
\<close>

definition executorSetup :: "Crawlee \<Rightarrow> CrawlOptions \<Rightarrow> thrown option" where
  "executorSetup lib options =
     (let timeout = (case opt_timeout options of None \<Rightarrow> 30000 | Some t \<Rightarrow> t) in
      case newConfiguration lib of
        Some e \<Rightarrow> Some e
      | None \<Rightarrow> newPlaywrightCrawler lib (timeout / 1000) (timeout / 1000))"

text \<open>
  \<^verbatim>\<open>crawl\<close> returns \<^verbatim>\<open>new Promise((resolve) => ...)\<close>. The executor's variables are the
  flag \<^verbatim>\<open>resolved\<close> and the promise itself. A promise takes the value of the first call
  of \<^verbatim>\<open>resolve\<close> and ignores every later call; \<open>resolve_calls\<close> counts the calls.
\<close>

record CrawlState =
  resolved :: bool
  promise :: "CrawlResult option"
  resolve_calls :: nat

definition initial :: CrawlState where
  "initial = \<lparr>resolved = False, promise = None, resolve_calls = 0\<rparr>"

definition resolve :: "CrawlResult \<Rightarrow> CrawlState \<Rightarrow> CrawlState" where
  "resolve r st =
     st\<lparr>promise := (case promise st of None \<Rightarrow> Some r | Some v \<Rightarrow> Some v),
        resolve_calls := Suc (resolve_calls st)\<rparr>"

text \<open>\<^verbatim>\<open>xs || []\<close> on an optional array (an empty array is truthy).\<close>

definition or_empty :: "'a list option \<Rightarrow> 'a list" where
  "or_empty xs = (case xs of None \<Rightarrow> [] | Some l \<Rightarrow> l)"

text \<open>
  The body of \<^verbatim>\<open>requestHandler\<close> inside \<^verbatim>\<open>try\<close>, up to the value of
  \<^verbatim>\<open>self.extract\<close>: the two waits, then the strategy.
\<close>

definition handlerBody :: "Crawler \<Rightarrow> page \<Rightarrow> jsstring \<Rightarrow> thrown + Extracted" where
  "handlerBody self p request_url =
     (case page_wait p (js ''waitForLoadState(domcontentloaded)'') of
        Some e \<Rightarrow> Inl e
      | None \<Rightarrow>
          (case page_wait p (js ''waitForTimeout(2000)'') of
             Some e \<Rightarrow> Inl e
           | None \<Rightarrow> cr_extract self p request_url))"

text \<open>
  The three callbacks. \<open>now\<close> is what \<^verbatim>\<open>nowISO()\<close> returns when the callback builds
  its result. \<^verbatim>\<open>requestHandler\<close> sets the flag and calls \<^verbatim>\<open>resolve\<close> in its \<^verbatim>\<open>try\<close>
  and in its \<^verbatim>\<open>catch\<close> without reading the flag; \<^verbatim>\<open>failedRequestHandler\<close> and the
  \<^verbatim>\<open>finally\<close> of \<^verbatim>\<open>crawler.run\<close> read it first.
\<close>

definition requestHandler :: "Crawler \<Rightarrow> page \<Rightarrow> jsstring \<Rightarrow> jsstring \<Rightarrow> CrawlState \<Rightarrow> CrawlState" where
  "requestHandler self p request_url now st =
     (case handlerBody self p request_url of
        Inr extracted \<Rightarrow>
          resolve \<lparr>success = True, platform = cr_platform self, url = request_url,
                   title = or_else (x_title extracted) [], author = x_author extracted,
                   content = or_else (x_content extracted) [],
                   images = or_empty (x_images extracted), videos = or_empty (x_videos extracted),
                   publishedAt = x_publishedAt extracted, crawledAt = now, error = None\<rparr>
            (st\<lparr>resolved := True\<rparr>)
      | Inl err \<Rightarrow>
          resolve \<lparr>success = False, platform = cr_platform self, url = request_url,
                   title = [], author = None, content = [], images = [], videos = [],
                   publishedAt = None, crawledAt = now,
                   error = Some (case err of Error message \<Rightarrow> message
                                 | NonError \<Rightarrow> js ''Unknown error'')\<rparr>
            (st\<lparr>resolved := True\<rparr>))"

definition failedRequestHandler ::
  "Crawler \<Rightarrow> jsstring \<Rightarrow> jsstring \<Rightarrow> jsstring \<Rightarrow> CrawlState \<Rightarrow> CrawlState" where
  "failedRequestHandler self request_url message now st =
     (if \<not> resolved st
      then resolve \<lparr>success = False, platform = cr_platform self, url = request_url,
                    title = [], author = None, content = [], images = [], videos = [],
                    publishedAt = None, crawledAt = now, error = Some message\<rparr>
             (st\<lparr>resolved := True\<rparr>)
      else st)"

definition runFinally :: "Crawler \<Rightarrow> jsstring \<Rightarrow> jsstring \<Rightarrow> CrawlState \<Rightarrow> CrawlState" where
  "runFinally self target now st =
     (if \<not> resolved st
      then resolve \<lparr>success = False, platform = cr_platform self, url = target,
                    title = [], author = None, content = [], images = [], videos = [],
                    publishedAt = None, crawledAt = now,
                    error = Some (js ''Crawler finished without result'')\<rparr>
             (st\<lparr>resolved := True\<rparr>)
      else st)"

text \<open>
  Crawlee decides which callbacks run and
  when: \<^verbatim>\<open>requestHandler\<close> with a loaded page (once more after a retry, and a run that
  Crawlee has timed out still runs on), \<^verbatim>\<open>failedRequestHandler\<close> with the last
  error, and the \<^verbatim>\<open>finally\<close> callback once \<^verbatim>\<open>crawler.run([url])\<close> has settled. An
  event is one callback run to its end, with the clock reading it takes;
  \<^verbatim>\<open>requestHandler\<close> touches the state only after its last \<^verbatim>\<open>await\<close>, so its run
  counts where it ends.
\<close>

datatype event =
    RequestHandler page jsstring
  | FailedRequestHandler jsstring jsstring
  | RunFinally

fun callback :: "Crawler \<Rightarrow> jsstring \<Rightarrow> event \<times> jsstring \<Rightarrow> CrawlState \<Rightarrow> CrawlState" where
  "callback self target (RequestHandler p request_url, now) st =
     requestHandler self p request_url now st"
| "callback self target (FailedRequestHandler request_url message, now) st =
     failedRequestHandler self request_url message now st"
| "callback self target (RunFinally, now) st = runFinally self target now st"

fun run :: "Crawler \<Rightarrow> jsstring \<Rightarrow> CrawlState \<Rightarrow> (event \<times> jsstring) list \<Rightarrow> CrawlState" where
  "run self target st [] = st"
| "run self target st (ev # evs) = run self target (callback self target ev st) evs"

text \<open>
  What the caller of \<^verbatim>\<open>crawl\<close> has after the events \<open>evs\<close>. The promise is rejected
  when the code before \<^verbatim>\<open>new Promise\<close> throws (\<^verbatim>\<open>crawl\<close> is \<^verbatim>\<open>async\<close>) and when
  the executor throws, which it can only do in one of the two constructors; no callback
  is registered then, and none runs. Otherwise the promise is pending or holds the
  result.
\<close>

datatype outcome = Rejected thrown | Pending | Resolved CrawlResult

definition crawl ::
  "Crawlee \<Rightarrow> Crawler \<Rightarrow> jsstring \<Rightarrow> CrawlOptions \<Rightarrow> (event \<times> jsstring) list \<Rightarrow> outcome" where
  "crawl lib self target options evs =
     (case parseCookies (opt_cookies options) (getDomain self) of
        Inl e \<Rightarrow> Rejected e
      | Inr parsedCookies \<Rightarrow>
          (case executorSetup lib options of
             Some e \<Rightarrow> Rejected e
           | None \<Rightarrow>
               (case promise (run self target initial evs) of
                  None \<Rightarrow> Pending
                | Some r \<Rightarrow> Resolved r)))"

section \<open>Notions of the claims and example inputs\<close>

text \<open>
  The words of a string: its maximal runs of code units that are not white space.
  Collapsing every run of white space to one space, with none left at the ends, is
  joining the words with single spaces.
\<close>

function ws_words :: "jsstring \<Rightarrow> jsstring list" where
  "ws_words [] = []"
| "ws_words (c # cs) =
     (if is_ws c then ws_words (dropWhile is_ws cs)
      else (c # takeWhile (\<lambda>x. \<not> is_ws x) cs) # ws_words (dropWhile (\<lambda>x. \<not> is_ws x) cs))"
  by pat_completeness auto
termination
  by (relation "measure length") (auto simp: less_Suc_eq_le length_dropWhile_le)

text \<open>Every white space character of the string is a space, and is followed by none.\<close>

fun ws_normal :: "jsstring \<Rightarrow> bool" where
  "ws_normal [] = True"
| "ws_normal [c] = (if is_ws c then c = SP else True)"
| "ws_normal (c # d # cs) =
     ((if is_ws c then c = SP \<and> \<not> is_ws d else True) \<and> ws_normal (d # cs))"

text \<open>
  The platform signatures of the specification, in order, and the rule it states for them:
  the first signature that occurs in the host decides, and a host with none is unknown.
\<close>

definition signatures :: "(jsstring \<times> Platform) list" where
  "signatures =
     [(js ''zhihu.com'', Zhihu),
      (js ''xiaohongshu.com'', Xiaohongshu), (js ''xhslink.com'', Xiaohongshu),
      (js ''twitter.com'', Twitter), (js ''x.com'', Twitter),
      (js ''weixin.qq.com'', Wechat)]"

fun first_match :: "(jsstring \<times> Platform) list \<Rightarrow> jsstring \<Rightarrow> Platform" where
  "first_match [] host = Unknown"
| "first_match ((signature, tag) # rest) host =
     (if includes_js host signature then tag else first_match rest host)"

text \<open>
  The entry the specification describes for one pair of a cookie string: the pair is
  trimmed, the name is what stands before its first \<^verbatim>\<open>=\<close> and the value all that stands
  after it, both trimmed, and the domain is the fallback.
\<close>

definition first_eq_entry :: "jsstring \<Rightarrow> jsstring \<Rightarrow> CookieParam" where
  "first_eq_entry domain pair =
     (let p = trim pair in
      \<lparr>c_name = trim (takeWhile (\<lambda>c. c \<noteq> EQ) p),
       c_value = trim (drop 1 (dropWhile (\<lambda>c. c \<noteq> EQ) p)),
       c_domain = Some domain, c_path = None\<rparr>)"

text \<open>A cookie of a structured list whose name and value are empty strings.\<close>

definition blank_cookie :: CookieParam where
  "blank_cookie = \<lparr>c_name = [], c_value = [], c_domain = None, c_path = None\<rparr>"

text \<open>
  What the loop of the generic strategy leaves in \<^verbatim>\<open>content\<close>, said without the loop.
  \<open>selector_texts\<close> are the texts of the selectors of the list that match an element, in
  the order of the list. The first text longer than 100 is taken; when there is none,
  the text of the last selector that matched (empty when none matched).
\<close>

definition selector_texts :: "page \<Rightarrow> jsstring list" where
  "selector_texts p = List.map_filter (\<lambda>selector. eval1 p selector el_text) contentSelectors"

definition chosen_text :: "page \<Rightarrow> jsstring" where
  "chosen_text p =
     (case find (\<lambda>t. length t > 100) (selector_texts p) of
        Some t \<Rightarrow> t
      | None \<Rightarrow> last ([] # selector_texts p))"

definition body_text :: "page \<Rightarrow> jsstring" where
  "body_text p = catch_or (eval1 p (js ''body'') el_text) []"

text \<open>Example inputs: a regular expression engine on markup without a match, an
  element with a text, and a page whose \<^verbatim>\<open>article\<close> holds five characters while its
  body holds more.\<close>

definition no_matches :: regex_engine where
  "no_matches pat s = []"

definition text_element :: "jsstring \<Rightarrow> element" where
  "text_element t = \<lparr>el_text = t, el_src = [], el_attr = (\<lambda>a. None), el_parentText = None\<rparr>"

definition short_article_dom :: dom where
  "short_article_dom =
     \<lparr>querySelectorAll =
        (\<lambda>selector. if selector = js ''article'' then [text_element (js ''short'')]
                     else if selector = js ''body'' then [text_element (js ''short and the rest of the page'')]
                     else []),
      innerHTML = [], innerText = []\<rparr>"

definition short_article_page :: page where
  "short_article_page =
     \<lparr>page_title = Inr (js ''A page''), page_wait = (\<lambda>label. None),
      page_dom = (\<lambda>call. Some short_article_dom)\<rparr>"

text \<open>A tweet whose article shows the same photo twenty-one times.\<close>

definition photo_element :: element where
  "photo_element =
     \<lparr>el_text = [], el_src = js ''https://pbs.twimg.com/media/a.jpg'',
      el_attr = (\<lambda>a. if a = js ''src'' then Some (js ''https://pbs.twimg.com/media/a.jpg'')
                     else None),
      el_parentText = None\<rparr>"

definition gallery_dom :: dom where
  \<open>gallery_dom =
     \<lparr>querySelectorAll =
        (\<lambda>selector. if selector = js ''article [data-testid="tweetPhoto"] img''
                     then replicate 21 photo_element else []),
      innerHTML = [], innerText = []\<rparr>\<close>

definition gallery_page :: page where
  "gallery_page =
     \<lparr>page_title = Inr (js ''Post / X''), page_wait = (\<lambda>label. None),
      page_dom = (\<lambda>call. Some gallery_dom)\<rparr>"

text \<open>A media list is capped at \<open>n\<close>: at most \<open>n\<close> entries, and none twice.\<close>

definition capped :: "nat \<Rightarrow> jsstring list \<Rightarrow> bool" where
  "capped n xs = (length xs \<le> n \<and> distinct xs)"

text \<open>A Xiaohongshu note that shows one picture in two \<^verbatim>\<open>img\<close> elements.\<close>

definition note_image :: element where
  "note_image =
     \<lparr>el_text = [], el_src = js ''https://sns-webpic-qc.xhscdn.com/note/a.jpg?imageView2'',
      el_attr = (\<lambda>a. None), el_parentText = None\<rparr>"

definition note_dom :: dom where
  "note_dom =
     \<lparr>querySelectorAll =
        (\<lambda>selector. if selector = js ''img'' then [note_image, note_image] else []),
      innerHTML = [], innerText = []\<rparr>"

definition note_page :: page where
  "note_page =
     \<lparr>page_title = Inr (js ''Tea'' @ lit_title_suffix), page_wait = (\<lambda>label. None),
      page_dom = (\<lambda>call. Some note_dom)\<rparr>"

text \<open>
  A Xiaohongshu login wall: the page title holds the word for "log in" and not the
  suffix of a note title; no evaluation is needed on it.
\<close>

definition login_wall_page :: page where
  "login_wall_page =
     \<lparr>page_title = Inr lit_login, page_wait = (\<lambda>label. None), page_dom = (\<lambda>call. None)\<rparr>"

definition no_options :: CrawlOptions where
  "no_options = \<lparr>opt_timeout = None, opt_cookies = None\<rparr>"

text \<open>
  A Crawlee that refuses a timeout of 0 seconds with an argument error, as the
  library's check of its options does, and accepts every other.
\<close>

definition checking_crawlee :: Crawlee where
  "checking_crawlee =
     \<lparr>newConfiguration = None,
      newPlaywrightCrawler =
        (\<lambda>handlerSecs navigationSecs.
           if handlerSecs = 0 \<or> navigationSecs = 0 then Some (Error (js ''ArgumentError''))
           else None)\<rparr>"

definition zero_timeout :: CrawlOptions where
  "zero_timeout = \<lparr>opt_timeout = Some 0, opt_cookies = None\<rparr>"

text \<open>The failed result the three failure paths build, with its message.\<close>

definition failed_result :: "Crawler \<Rightarrow> jsstring \<Rightarrow> jsstring \<Rightarrow> jsstring \<Rightarrow> CrawlResult" where
  "failed_result self request_url now message =
     \<lparr>success = False, platform = cr_platform self, url = request_url,
      title = [], author = None, content = [], images = [], videos = [],
      publishedAt = None, crawledAt = now, error = Some message\<rparr>"

text \<open>
  The result that a callback builds when it is the one that resolves the promise: the
  successful result or the failed one of \<^verbatim>\<open>requestHandler\<close>, the failed one of
  \<^verbatim>\<open>failedRequestHandler\<close>, or the failed one of the \<^verbatim>\<open>finally\<close> callback.
\<close>

definition built_by :: "Crawler \<Rightarrow> jsstring \<Rightarrow> event \<times> jsstring \<Rightarrow> CrawlResult" where
  "built_by self target ev =
     (case ev of
        (RequestHandler p request_url, now) \<Rightarrow>
          (case handlerBody self p request_url of
             Inr extracted \<Rightarrow>
               \<lparr>success = True, platform = cr_platform self, url = request_url,
                title = or_else (x_title extracted) [], author = x_author extracted,
                content = or_else (x_content extracted) [],
                images = or_empty (x_images extracted), videos = or_empty (x_videos extracted),
                publishedAt = x_publishedAt extracted, crawledAt = now, error = None\<rparr>
           | Inl err \<Rightarrow>
               failed_result self request_url now
                 (case err of Error message \<Rightarrow> message | NonError \<Rightarrow> js ''Unknown error''))
      | (FailedRequestHandler request_url message, now) \<Rightarrow>
          failed_result self request_url now message
      | (RunFinally, now) \<Rightarrow>
          failed_result self target now (js ''Crawler finished without result''))"

text \<open>
  The elements that a \<^verbatim>\<open>$$eval\<close> of a selector hands to its callback, none when the
  call is rejected; the photo selector of the Twitter strategy; and a Zhihu article
  that shows one picture twenty-one times.
\<close>

definition matched :: "page \<Rightarrow> jsstring \<Rightarrow> element list" where
  "matched p selector =
     (case page_dom p selector of None \<Rightarrow> [] | Some d \<Rightarrow> querySelectorAll d selector)"

definition twitter_photo_selector :: jsstring where
  \<open>twitter_photo_selector = js ''article [data-testid="tweetPhoto"] img''\<close>

definition zhihu_article_dom :: dom where
  "zhihu_article_dom =
     \<lparr>querySelectorAll =
        (\<lambda>selector. if selector = js ''.Post-RichTextContainer img, .RichText img''
                     then replicate 21 photo_element else []),
      innerHTML = [], innerText = []\<rparr>"

definition zhihu_article_page :: page where
  "zhihu_article_page =
     \<lparr>page_title = Inr (js ''Essay''), page_wait = (\<lambda>label. None),
      page_dom = (\<lambda>call. Some zhihu_article_dom)\<rparr>"

section \<open>The text normalizer: proofs\<close>

lemma is_ws_SP: "is_ws SP"
  by (simp add: is_ws_def)

lemma is_ws_NL: "is_ws NL"
  by (simp add: is_ws_def)

lemma collapseWs_hd: "collapseWs s = d # r \<Longrightarrow> is_ws d \<Longrightarrow> s \<noteq> [] \<and> is_ws (hd s)"
  by (cases s) (auto split: if_splits)

lemma ws_normal_collapse: "ws_normal (collapseWs s)"
proof (induction s rule: collapseWs.induct)
  case 1 show ?case by simp
next
  case (2 c cs)
  show ?case
  proof (cases "is_ws c")
    case True
    have n: "ws_normal (collapseWs (dropWhile is_ws cs))" using 2(1) True by simp
    show ?thesis
    proof (cases "collapseWs (dropWhile is_ws cs)")
      case Nil then show ?thesis using True by simp
    next
      case (Cons d r)
      have "\<not> is_ws d"
      proof
        assume "is_ws d"
        from collapseWs_hd[OF Cons this] show False
          by (metis hd_dropWhile)
      qed
      then show ?thesis using True Cons n by simp
    qed
  next
    case False
    have n: "ws_normal (collapseWs cs)" using 2(2) False by simp
    show ?thesis using False n by (cases "collapseWs cs") auto
  qed
qed

lemma collapse_fixed: "ws_normal s \<Longrightarrow> collapseWs s = s"
  by (induction s rule: ws_normal.induct) (auto split: if_splits)

lemma ws_normal_no_NL: "ws_normal s \<Longrightarrow> NL \<notin> set s"
  by (induction s rule: ws_normal.induct) (auto simp: is_ws_def split: if_splits)

lemma removeBlank_fixed: "NL \<notin> set s \<Longrightarrow> removeBlankLines s = s"
  by (induction s) auto

lemma ws_normal_tl: "ws_normal (x # ys) \<Longrightarrow> ws_normal ys"
  by (cases ys) (auto split: if_splits)

lemma ws_normal_suffix: "ws_normal (xs @ ys) \<Longrightarrow> ws_normal ys"
  by (induction xs) (auto dest: ws_normal_tl)

lemma ws_normal_prefix: "ws_normal (xs @ ys) \<Longrightarrow> ws_normal xs"
proof (induction xs rule: ws_normal.induct)
  case 1 show ?case by simp
next
  case (2 c) then show ?case by (cases ys) (auto split: if_splits)
next
  case (3 c d cs) then show ?case by (auto split: if_splits)
qed

lemma ws_normal_dropWhile: "ws_normal s \<Longrightarrow> ws_normal (dropWhile P s)"
  by (metis takeWhile_dropWhile_id ws_normal_suffix)

lemma trim_split: "\<exists>a b. s = a @ trim s @ b"
proof -
  let ?u = "dropWhile is_ws s"
  have "s = takeWhile is_ws s @ ?u" by simp
  moreover have "?u = trim s @ rev (takeWhile is_ws (rev ?u))"
    unfolding trim_def by (metis rev_append rev_rev_ident takeWhile_dropWhile_id)
  ultimately show ?thesis by (metis append.assoc)
qed

lemma ws_normal_trim: "ws_normal s \<Longrightarrow> ws_normal (trim s)"
  by (metis trim_split ws_normal_prefix ws_normal_suffix)

lemma trim_hd: "trim s \<noteq> [] \<Longrightarrow> \<not> is_ws (hd (trim s))"
proof -
  assume ne: "trim s \<noteq> []"
  let ?u = "dropWhile is_ws s"
  let ?v = "dropWhile is_ws (rev ?u)"
  have v: "?v \<noteq> []" using ne by (simp add: trim_def)
  then have u: "?u \<noteq> []" by (metis dropWhile.simps(1) rev.simps(1))
  have "hd (trim s) = last ?v" using v by (simp add: trim_def hd_rev)
  also have "\<dots> = last (rev ?u)"
    by (metis v append_is_Nil_conv last_appendR takeWhile_dropWhile_id)
  also have "\<dots> = hd ?u" using u by (simp add: last_rev)
  finally show ?thesis using u hd_dropWhile by metis
qed

lemma trim_last: "trim s \<noteq> [] \<Longrightarrow> \<not> is_ws (last (trim s))"
proof -
  assume ne: "trim s \<noteq> []"
  let ?v = "dropWhile is_ws (rev (dropWhile is_ws s))"
  have v: "?v \<noteq> []" using ne by (simp add: trim_def)
  have "last (trim s) = hd ?v" using v by (simp add: trim_def last_rev)
  then show ?thesis using v hd_dropWhile by metis
qed

lemma trim_fixed: "s = [] \<or> (\<not> is_ws (hd s) \<and> \<not> is_ws (last s)) \<Longrightarrow> trim s = s"
proof (cases s)
  case Nil then show ?thesis by (simp add: trim_def)
next
  case (Cons c cs)
  assume "s = [] \<or> (\<not> is_ws (hd s) \<and> \<not> is_ws (last s))"
  then have h: "\<not> is_ws (hd s)" and l: "\<not> is_ws (last s)" using Cons by auto
  have 1: "dropWhile is_ws s = s" using h Cons by simp
  have "rev s \<noteq> []" "hd (rev s) = last s" using Cons by (simp_all add: hd_rev)
  then have 2: "dropWhile is_ws (rev s) = rev s" using l
    by (metis dropWhile_eq_self_iff)
  show ?thesis by (simp add: trim_def 1 2)
qed

lemma cleanText_eq: "cleanText s = trim (collapseWs s)"
  by (simp add: cleanText_def removeBlank_fixed ws_normal_no_NL ws_normal_collapse)

lemma cleanText_normal: "ws_normal (cleanText s)"
  by (simp add: cleanText_eq ws_normal_trim ws_normal_collapse)

lemma cleanText_idem: "cleanText (cleanText s) = cleanText s"
proof -
  let ?t = "cleanText s"
  have "collapseWs ?t = ?t" by (rule collapse_fixed[OF cleanText_normal])
  moreover have "trim ?t = ?t"
    by (rule trim_fixed) (metis cleanText_eq trim_hd trim_last)
  ultimately show ?thesis by (simp add: cleanText_eq[of ?t])
qed

lemma ws_words_dropWhile: "ws_words (dropWhile is_ws s) = ws_words s"
  by (induction s) auto

lemma dropWhile_all: "\<forall>c\<in>set w. P c \<Longrightarrow> dropWhile P w = []"
  by (induction w) auto

lemma ws_words_all_ws: "\<forall>c\<in>set w. is_ws c \<Longrightarrow> ws_words w = []"
proof (cases w)
  case Nil then show ?thesis by simp
next
  case (Cons a r)
  assume "\<forall>c\<in>set w. is_ws c"
  then have a: "is_ws a" and r: "dropWhile is_ws r = []" using Cons by (auto intro: dropWhile_all)
  show ?thesis by (simp add: Cons a r)
qed

lemma ws_words_append_ws:
  "\<forall>c\<in>set w. is_ws c \<Longrightarrow> ws_words (s @ w) = ws_words s"
proof (induction s rule: ws_words.induct)
  case 1 then show ?case by (simp add: ws_words_all_ws)
next
  case (2 c cs)
  show ?case
  proof (cases "is_ws c")
    case True
    show ?thesis
    proof (cases "\<forall>x\<in>set cs. is_ws x")
      case all: True
      then have a: "dropWhile is_ws (cs @ w) = []" using 2(3) by (simp add: dropWhile_append)
      have b: "dropWhile is_ws cs = []" using all by simp
      show ?thesis using True by (simp add: a b)
    next
      case False
      then have "dropWhile is_ws (cs @ w) = dropWhile is_ws cs @ w"
        by (auto simp: dropWhile_append)
      then show ?thesis using True 2(1)[OF True 2(3)] by simp
    qed
  next
    case False
    let ?P = "\<lambda>x. \<not> is_ws x"
    show ?thesis
    proof (cases "\<forall>x\<in>set cs. ?P x")
      case all: True
      have tw: "takeWhile ?P w = []" using 2(3) by (cases w) auto
      have a: "takeWhile ?P (cs @ w) = cs" "dropWhile ?P (cs @ w) = dropWhile ?P w"
        using all by (simp_all add: takeWhile_append dropWhile_append tw)
      have b: "takeWhile ?P cs = cs" "dropWhile ?P cs = []" using all by simp_all
      have c: "ws_words (dropWhile ?P w) = []"
        by (rule ws_words_all_ws) (meson 2(3) set_dropWhileD)
      show ?thesis using False by (simp add: a b c)
    next
      case nall: False
      then have "takeWhile ?P (cs @ w) = takeWhile ?P cs"
        "dropWhile ?P (cs @ w) = dropWhile ?P cs @ w"
        by (auto simp: takeWhile_append dropWhile_append)
      then show ?thesis using False 2(2)[OF False 2(3)] by simp
    qed
  qed
qed

lemma ws_words_trim: "ws_words (trim s) = ws_words s"
proof -
  let ?u = "dropWhile is_ws s"
  have "?u = trim s @ rev (takeWhile is_ws (rev ?u))"
    unfolding trim_def by (metis rev_append rev_rev_ident takeWhile_dropWhile_id)
  moreover have "\<forall>c\<in>set (rev (takeWhile is_ws (rev ?u))). is_ws c"
    by (auto dest: set_takeWhileD)
  ultimately have "ws_words ?u = ws_words (trim s)"
    by (metis ws_words_append_ws)
  then show ?thesis by (simp add: ws_words_dropWhile)
qed

lemma collapseWs_nonws_run:
  "collapseWs s = takeWhile (\<lambda>x. \<not> is_ws x) s @ collapseWs (dropWhile (\<lambda>x. \<not> is_ws x) s)"
  by (induction s) auto

lemma collapseWs_start: "collapseWs s \<noteq> [] \<Longrightarrow> is_ws (hd (collapseWs s)) = is_ws (hd s)"
  by (cases s) (auto simp: is_ws_SP)

lemma ws_words_collapse: "ws_words (collapseWs s) = ws_words s"
proof (induction s rule: length_induct)
  case (1 s)
  show ?case
  proof (cases s)
    case Nil then show ?thesis by simp
  next
    case (Cons c cs)
    show ?thesis
    proof (cases "is_ws c")
      case True
      let ?r = "dropWhile is_ws cs"
      have len: "length ?r < length s" using Cons by (simp add: less_Suc_eq_le length_dropWhile_le)
      have "dropWhile is_ws (collapseWs ?r) = collapseWs ?r"
        by (metis collapseWs.simps(1) collapseWs_hd dropWhile_eq_self_iff hd_dropWhile list.exhaust_sel)
      then have "ws_words (collapseWs s) = ws_words (collapseWs ?r)"
        using Cons True by (simp add: is_ws_SP)
      also have "\<dots> = ws_words ?r" using 1 len by blast
      finally show ?thesis using Cons True by simp
    next
      case False
      let ?P = "\<lambda>x. \<not> is_ws x"
      let ?r = "dropWhile ?P cs"
      have len: "length ?r < length s" using Cons by (simp add: less_Suc_eq_le length_dropWhile_le)
      have cw: "collapseWs cs = takeWhile ?P cs @ collapseWs ?r" by (rule collapseWs_nonws_run)
      have st: "collapseWs ?r = [] \<or> is_ws (hd (collapseWs ?r))"
        by (metis collapseWs_start hd_dropWhile collapseWs.simps(1))
      have tw: "takeWhile ?P (collapseWs cs) = takeWhile ?P cs"
        using st by (subst cw) (cases "collapseWs ?r"; auto simp: takeWhile_append dest: set_takeWhileD)
      have dw: "dropWhile ?P (collapseWs cs) = collapseWs ?r"
        using st by (subst cw) (cases "collapseWs ?r"; auto simp: dropWhile_append dest: set_takeWhileD)
      have "ws_words (collapseWs s) = (c # takeWhile ?P cs) # ws_words (collapseWs ?r)"
        using Cons False by (simp add: tw dw)
      also have "ws_words (collapseWs ?r) = ws_words ?r" using 1 len by blast
      finally show ?thesis using Cons False by simp
    qed
  qed
qed

lemma ws_words_Nil: "ws_words s = [] \<Longrightarrow> \<forall>c\<in>set s. is_ws c"
proof (induction s rule: ws_words.induct)
  case 1 show ?case by simp
next
  case (2 c cs)
  show ?case
  proof (cases "is_ws c")
    case True
    then have "ws_words (dropWhile is_ws cs) = []" using 2(3) by simp
    then have all: "\<forall>x\<in>set (dropWhile is_ws cs). is_ws x" by (rule 2(1)[OF True])
    have "dropWhile is_ws cs = []"
    proof (rule ccontr)
      assume ne: "dropWhile is_ws cs \<noteq> []"
      then have "\<not> is_ws (hd (dropWhile is_ws cs))" by (rule hd_dropWhile)
      moreover have "hd (dropWhile is_ws cs) \<in> set (dropWhile is_ws cs)" using ne by simp
      ultimately show False using all by blast
    qed
    then have "\<forall>x\<in>set cs. is_ws x" by (simp only: dropWhile_eq_Nil_conv)
    then show ?thesis using True by simp
  next
    case False
    then show ?thesis using 2(3) by simp
  qed
qed

lemma join_js_Cons: "ws \<noteq> [] \<Longrightarrow> join_js sep (w # ws) = w @ sep @ join_js sep ws"
  by (cases ws) auto

lemma join_ws_words:
  "ws_normal t \<Longrightarrow> t = [] \<or> \<not> is_ws (last t) \<Longrightarrow> join_js [SP] (ws_words t) = dropWhile is_ws t"
proof (induction t rule: ws_words.induct)
  case 1 show ?case by simp
next
  case (2 c cs)
  have l: "\<not> is_ws (last (c # cs))" using 2(4) by simp
  show ?case
  proof (cases "is_ws c")
    case True
    then obtain d r where cs: "cs = d # r" and d: "\<not> is_ws d" and c: "c = SP"
      using 2(3) l by (cases cs) (auto split: if_splits)
    have n: "ws_normal cs" using 2(3) by (rule ws_normal_tl)
    have "join_js [SP] (ws_words (dropWhile is_ws cs)) = dropWhile is_ws (dropWhile is_ws cs)"
      using 2(1)[OF True] n l cs d by simp
    then show ?thesis using True cs d by simp
  next
    case False
    let ?P = "\<lambda>x. \<not> is_ws x"
    let ?r = "dropWhile ?P cs"
    have n: "ws_normal ?r" using 2(3) by (metis ws_normal_tl ws_normal_dropWhile)
    show ?thesis
    proof (cases "?r = []")
      case True
      then have "takeWhile ?P cs = cs" by (metis append_Nil2 takeWhile_dropWhile_id)
      then show ?thesis using False by (simp add: True)
    next
      case ne: False
      have lr: "\<not> is_ws (last ?r)" using l ne
        by (metis last_ConsR last_appendR takeWhile_dropWhile_id dropWhile.simps(1))
      have ih: "join_js [SP] (ws_words ?r) = dropWhile is_ws ?r"
        using 2(2)[OF False n] lr by simp
      have hd: "is_ws (hd ?r)" using ne hd_dropWhile by blast
      have "ws_normal ?r" by (rule n)
      obtain e r' where r: "?r = e # r'" using ne by (cases ?r) auto
      have e: "is_ws e" using hd r by simp
      have r'ne: "r' \<noteq> []" using lr r e by (cases r') auto
      then obtain f r'' where r': "r' = f # r''" by (cases r') auto
      have eSP: "e = SP" and f: "\<not> is_ws f" using n r r' e by (auto split: if_splits)
      have dw: "dropWhile is_ws ?r = r'" using r e r' f by simp
      have wne: "ws_words ?r \<noteq> []"
        using ws_words_Nil[of ?r] lr ne by (metis last_in_set)
      have "join_js [SP] (ws_words (c # cs)) = (c # takeWhile ?P cs) @ SP # join_js [SP] (ws_words ?r)"
        using False wne by (simp add: join_js_Cons)
      also have "\<dots> = (c # takeWhile ?P cs) @ ?r" using ih dw r eSP by simp
      also have "\<dots> = c # cs" by simp
      finally show ?thesis using False by simp
    qed
  qed
qed

lemma cleanText_words: "cleanText s = join_js [SP] (ws_words s)"
proof -
  let ?t = "cleanText s"
  have tl: "?t = [] \<or> \<not> is_ws (last ?t)" by (metis cleanText_eq trim_last)
  have "join_js [SP] (ws_words ?t) = dropWhile is_ws ?t"
    by (rule join_ws_words[OF cleanText_normal tl])
  also have "\<dots> = ?t" by (metis cleanText_eq trim_hd dropWhile_eq_self_iff)
  finally have "?t = join_js [SP] (ws_words ?t)" by simp
  also have "ws_words ?t = ws_words s"
    by (simp add: cleanText_eq ws_words_trim ws_words_collapse)
  finally show ?thesis .
qed

text \<open>
  Claim C7. Text normalization is idempotent: normalizing a normalized string returns
  it unchanged. The normalized text is the words of the input joined by single spaces, so
  every run of white space between two words has become one space and none is left at
  the ends; every white space character left is a space followed by none; and no blank
  line is left, since the blank-line pattern matches nowhere in it.
\<close>

theorem cleanText_idempotent:
  "cleanText (cleanText s) = cleanText s
   \<and> cleanText s = join_js [SP] (ws_words s)
   \<and> ws_normal (cleanText s)
   \<and> removeBlankLines (cleanText s) = cleanText s"
  by (simp add: cleanText_idem cleanText_words [symmetric] cleanText_normal
      removeBlank_fixed ws_normal_no_NL)

text \<open>
  Claim C10. The normalized text holds no line feed: the first substitution leaves
  none, so the blank-line substitution that follows changes nothing, and the lines of
  the input are not kept.
\<close>

theorem cleanText_no_newline:
  "NL \<notin> set (cleanText s)
   \<and> NL \<notin> set (collapseWs s)
   \<and> removeBlankLines (collapseWs s) = collapseWs s"
  by (simp add: ws_normal_no_NL cleanText_normal ws_normal_collapse removeBlank_fixed)

section \<open>The platform classifier: proofs\<close>

lemma includes_js_sublist: "includes_js s t = sublist t s"
  by (induction s) (simp_all add: sublist_Cons_right)

lemma includes_js_longer:
  "includes_js s (a @ t) \<Longrightarrow> includes_js s t"
  unfolding includes_js_sublist by (meson sublist_append_rightI sublist_order.order_trans suffix_imp_sublist suffixI)

lemma mp_weixin_redundant:
  "includes_js host (js ''mp.weixin.qq.com'') \<Longrightarrow> includes_js host (js ''weixin.qq.com'')"
proof -
  have "js ''mp.weixin.qq.com'' = js ''mp.'' @ js ''weixin.qq.com''"
    by (simp add: js_def)
  then show "includes_js host (js ''mp.weixin.qq.com'') \<Longrightarrow> includes_js host (js ''weixin.qq.com'')"
    by (metis includes_js_longer)
qed

lemma detectPlatform_examples:
  "detectPlatform (\<lambda>u. Inr (js ''WWW.Zhihu.com'')) asciiLower target = Inr Zhihu"
  "detectPlatform (\<lambda>u. Inr (js ''xhslink.com'')) asciiLower target = Inr Xiaohongshu"
  "detectPlatform (\<lambda>u. Inr (js ''netflix.com'')) asciiLower target = Inr Twitter"
  "detectPlatform (\<lambda>u. Inr (js ''mp.weixin.qq.com'')) asciiLower target = Inr Wechat"
  "detectPlatform (\<lambda>u. Inr (js ''example.org'')) asciiLower target = Inr Unknown"
  "detectPlatform (\<lambda>u. Inl (Error (js ''Invalid URL''))) asciiLower target
     = Inl (Error (js ''Invalid URL''))"
  by (simp_all add: detectPlatform_def asciiLower_def js_def)

text \<open>
  Claim C8. For a well-formed URL the classifier lowercases the host and returns the tag
  of the first signature, in the fixed order, that occurs in it as a substring
  (\<^verbatim>\<open>zhihu.com\<close>; \<^verbatim>\<open>xiaohongshu.com\<close> or \<^verbatim>\<open>xhslink.com\<close>; \<^verbatim>\<open>twitter.com\<close> or
  \<^verbatim>\<open>x.com\<close>; \<^verbatim>\<open>weixin.qq.com\<close>), and unknown when none does; a string that is no
  URL makes it throw what the URL parser throws. The result is a function of the
  argument alone.
\<close>

theorem detectPlatform_first_match:
  "detectPlatform hostname toLowerCase target =
     (case hostname target of
        Inl e \<Rightarrow> Inl e
      | Inr h \<Rightarrow> Inr (first_match signatures (toLowerCase h)))
   \<and> includes_js host signature = sublist signature host"
proof -
  have "detectPlatform hostname toLowerCase target =
     (case hostname target of
        Inl e \<Rightarrow> Inl e
      | Inr h \<Rightarrow> Inr (first_match signatures (toLowerCase h)))"
    using mp_weixin_redundant
    by (auto simp: detectPlatform_def signatures_def Let_def split: sum.splits)
  then show ?thesis by (simp add: includes_js_sublist)
qed

section \<open>The cookie normalizer: proofs\<close>

lemma split_js_first:
  "split_js sep s =
     takeWhile (\<lambda>c. c \<noteq> sep) s
     # (case dropWhile (\<lambda>c. c \<noteq> sep) s of [] \<Rightarrow> [] | x # r \<Rightarrow> split_js sep r)"
  by (induction s) (auto split: list.splits)

lemma split_js_not_Nil: "split_js sep s \<noteq> []"
  by (subst split_js_first) simp

lemma join_split_js: "join_js [sep] (split_js sep s) = s"
proof (induction s)
  case Nil show ?case by simp
next
  case (Cons c cs)
  obtain p ps where sp: "split_js sep cs = p # ps"
    using split_js_not_Nil by (cases "split_js sep cs") auto
  show ?case using Cons sp by (cases ps) auto
qed

lemma join_after_first:
  "join_js [sep] (case rest of [] \<Rightarrow> [] | x # r \<Rightarrow> split_js sep r) = drop 1 rest"
  by (cases rest) (simp_all add: join_split_js)

lemma parsePair_first_eq: "parsePair domain pair = Inr (first_eq_entry domain pair)"
proof -
  let ?p = "trim pair"
  let ?rest = "dropWhile (\<lambda>c. c \<noteq> EQ) ?p"
  have sp: "split_js EQ ?p =
      takeWhile (\<lambda>c. c \<noteq> EQ) ?p # (case ?rest of [] \<Rightarrow> [] | x # r \<Rightarrow> split_js EQ r)"
    by (rule split_js_first)
  have "join_js [EQ] (case ?rest of [] \<Rightarrow> [] | x # r \<Rightarrow> split_js EQ r) = drop 1 ?rest"
    by (rule join_after_first)
  then show ?thesis
    by (simp add: parsePair_def first_eq_entry_def Let_def sp)
qed

lemma map_throwing_total:
  "(\<And>x. f x = Inr (g x)) \<Longrightarrow> map_throwing f xs = Inr (map g xs)"
  by (induction xs) simp_all

lemma parseCookies_string_eq:
  "parseCookies (Some (CookieString s)) domain =
     Inr (filter (\<lambda>c. c_name c \<noteq> [] \<and> c_value c \<noteq> [])
            (map (first_eq_entry domain) (split_js SEMI s)))"
proof (cases "s = []")
  case True
  then show ?thesis
    by (simp add: parseCookies_def first_eq_entry_def trim_def)
next
  case False
  have "map_throwing (parsePair domain) (split_js SEMI s)
        = Inr (map (first_eq_entry domain) (split_js SEMI s))"
    by (rule map_throwing_total) (rule parsePair_first_eq)
  then show ?thesis using False by (simp add: parseCookies_def)
qed

lemma parseCookies_total: "\<exists>cs. parseCookies cookies domain = Inr cs"
proof (cases cookies)
  case None then show ?thesis by (simp add: parseCookies_def)
next
  case (Some a)
  then show ?thesis
    by (cases a) (simp_all add: parseCookies_string_eq, simp add: parseCookies_def)
qed

lemma js_simps: "js [] = []" "js (c # cs) = of_char c # js cs"
  by (simp_all add: js_def)

lemmas cookie_eval =
  parseCookies_def parsePair_def js_simps trim_def is_ws_def or_else_def

text \<open>
  Claim C5. A cookie string is split on \<^verbatim>\<open>;\<close>; each pair is trimmed and split at its
  first \<^verbatim>\<open>=\<close> only, into a trimmed name and a trimmed value that may itself hold
  \<^verbatim>\<open>=\<close>; every entry gets the fallback domain; entries whose name or value is empty
  are left out. So \<^verbatim>\<open>a=1; b=2\<close> gives two entries, \<^verbatim>\<open>a=b=c\<close> gives the value
  \<^verbatim>\<open>b=c\<close>, the example of the specification gives its two entries, and absent input
  gives the empty list. No input makes the function throw: its result is always a list.
\<close>

theorem parseCookies_string:
  "parseCookies (Some (CookieString s)) domain =
     Inr (filter (\<lambda>c. c_name c \<noteq> [] \<and> c_value c \<noteq> [])
            (map (first_eq_entry domain) (split_js SEMI s)))
   \<and> parseCookies (Some (CookieString (js ''a=1; b=2''))) domain =
       Inr [\<lparr>c_name = js ''a'', c_value = js ''1'', c_domain = Some domain, c_path = None\<rparr>,
            \<lparr>c_name = js ''b'', c_value = js ''2'', c_domain = Some domain, c_path = None\<rparr>]
   \<and> parseCookies (Some (CookieString (js ''a=b=c''))) domain =
       Inr [\<lparr>c_name = js ''a'', c_value = js ''b=c'', c_domain = Some domain, c_path = None\<rparr>]
   \<and> parseCookies (Some (CookieString (js '' foo = bar ; baz=qux=1 ''))) (js ''.example.com'') =
       Inr [\<lparr>c_name = js ''foo'', c_value = js ''bar'',
              c_domain = Some (js ''.example.com''), c_path = None\<rparr>,
            \<lparr>c_name = js ''baz'', c_value = js ''qux=1'',
              c_domain = Some (js ''.example.com''), c_path = None\<rparr>]
   \<and> parseCookies None domain = Inr []
   \<and> (\<exists>cs. parseCookies cookies domain = Inr cs)"
proof -
  have total: "\<exists>cs. parseCookies cookies domain = Inr cs"
    by (rule parseCookies_total)
  have e1: "parseCookies (Some (CookieString (js ''a=1; b=2''))) domain =
       Inr [\<lparr>c_name = js ''a'', c_value = js ''1'', c_domain = Some domain, c_path = None\<rparr>,
            \<lparr>c_name = js ''b'', c_value = js ''2'', c_domain = Some domain, c_path = None\<rparr>]"
    by (simp add: cookie_eval)
  have e2: "parseCookies (Some (CookieString (js ''a=b=c''))) domain =
       Inr [\<lparr>c_name = js ''a'', c_value = js ''b=c'', c_domain = Some domain, c_path = None\<rparr>]"
    by (simp add: cookie_eval)
  have e3: "parseCookies (Some (CookieString (js '' foo = bar ; baz=qux=1 ''))) (js ''.example.com'') =
       Inr [\<lparr>c_name = js ''foo'', c_value = js ''bar'',
              c_domain = Some (js ''.example.com''), c_path = None\<rparr>,
            \<lparr>c_name = js ''baz'', c_value = js ''qux=1'',
              c_domain = Some (js ''.example.com''), c_path = None\<rparr>]"
    by (simp add: cookie_eval)
  have e4: "parseCookies None domain = Inr []" by (simp add: parseCookies_def)
  show ?thesis using parseCookies_string_eq total e1 e2 e3 e4 by blast
qed

text \<open>
  Claim C4, as stated, fails on a structured list: its entries are passed through, and
  one with an empty name and an empty value is in the output.
\<close>

theorem parseCookies_list_keeps_blank:
  "parseCookies (Some (CookieArray [blank_cookie])) (js ''.example.com'') =
     Inr [\<lparr>c_name = [], c_value = [], c_domain = Some (js ''.example.com''), c_path = None\<rparr>]"
  by (simp add: parseCookies_def blank_cookie_def or_else_def)

text \<open>
  Claim C4, amended. Every entry parsed from a cookie string has a non-empty name, a
  non-empty value and the fallback domain. A structured list is passed through entry by
  entry: names, values and paths are unchanged, empty ones too, and the domain of an
  entry is the fallback when it is missing or empty and its own otherwise.
\<close>

theorem parseCookies_entries:
  assumes "parseCookies (Some (CookieString s)) domain = Inr cs" and "c \<in> set cs"
  shows "c_name c \<noteq> [] \<and> c_value c \<noteq> [] \<and> c_domain c = Some domain
    \<and> parseCookies (Some (CookieArray entries)) domain =
        Inr (map (\<lambda>e. e\<lparr>c_domain := Some (or_else (c_domain e) domain)\<rparr>) entries)
    \<and> or_else None domain = domain \<and> or_else (Some []) domain = domain
    \<and> or_else (Some (x # xs)) domain = x # xs"
proof -
  have "c \<in> set (filter (\<lambda>c. c_name c \<noteq> [] \<and> c_value c \<noteq> [])
            (map (first_eq_entry domain) (split_js SEMI s)))"
    using assms by (simp add: parseCookies_string_eq)
  then have "c_name c \<noteq> [] \<and> c_value c \<noteq> [] \<and> c_domain c = Some domain"
    by (auto simp: first_eq_entry_def Let_def)
  then show ?thesis by (simp add: parseCookies_def or_else_def)
qed

theorem parseCookies_entries_witness:
  "parseCookies (Some (CookieString (js ''a=1;=2;b=''))) (js ''.example.com'') =
     Inr [\<lparr>c_name = js ''a'', c_value = js ''1'', c_domain = Some (js ''.example.com''),
            c_path = None\<rparr>]
   \<and> c_name \<lparr>c_name = js ''a'', c_value = js ''1'', c_domain = Some (js ''.example.com''),
            c_path = None\<rparr> \<noteq> []
   \<and> parseCookies (Some (CookieArray [blank_cookie])) (js ''.example.com'') =
        Inr (map (\<lambda>e. e\<lparr>c_domain := Some (or_else (c_domain e) (js ''.example.com''))\<rparr>)
               [blank_cookie])"
proof -
  let ?c = "\<lparr>c_name = js ''a'', c_value = js ''1'', c_domain = Some (js ''.example.com''),
            c_path = None\<rparr>"
  have h1: "parseCookies (Some (CookieString (js ''a=1;=2;b=''))) (js ''.example.com'') = Inr [?c]"
    by (simp add: cookie_eval)
  have h2: "?c \<in> set [?c]" by simp
  show ?thesis using parseCookies_entries [OF h1 h2, of "[blank_cookie]"] h1 by simp
qed

section \<open>The generic strategy: proofs\<close>

lemma js_eq_iff: "js a = js b \<longleftrightarrow> a = b"
  by (simp add: js_def inj_map_eq_map [OF inj_of_char])

lemma pickContent_spec:
  "pickContent p c sels =
     (case find (\<lambda>t. length t > 100) (List.map_filter (\<lambda>s. eval1 p s el_text) sels) of
        Some t \<Rightarrow> t
      | None \<Rightarrow> last (c # List.map_filter (\<lambda>s. eval1 p s el_text) sels))"
  by (induction sels arbitrary: c) (auto simp: List.map_filter_simps split: option.splits)

lemma pickContent_chosen: "pickContent p [] contentSelectors = chosen_text p"
  unfolding chosen_text_def selector_texts_def by (rule pickContent_spec)

lemma short_article_result:
  "generic_extract no_matches short_article_page [] =
     Inr \<lparr>x_title = Some (js ''A page''), x_author = Some [], x_content = Some (js ''short''),
          x_images = Some [], x_videos = Some [], x_publishedAt = None\<rparr>"
proof -
  have pick: "pickContent short_article_page [] contentSelectors = js ''short''"
    by (simp add: short_article_page_def short_article_dom_def contentSelectors_def
        eval1_def js_eq_iff text_element_def)
  have clean: "cleanText (js ''short'') = js ''short''" "cleanText [] = []"
    by (simp_all add: cleanText_def js_simps trim_def is_ws_def)
  have vids: "generic_videos_script no_matches short_article_dom = []"
    by (simp add: generic_videos_script_def short_article_dom_def no_matches_def captures_def
        push_all_def slice0_def js_eq_iff)
  have ttl: "page_title short_article_page = Inr (js ''A page'')"
    by (simp add: short_article_page_def)
  have dom: "page_dom short_article_page call = Some short_article_dom" for call
    by (simp add: short_article_page_def)
  have q: "querySelectorAll short_article_dom selector = []"
    if "selector \<noteq> js ''article''" "selector \<noteq> js ''body''" for selector
    using that by (simp add: short_article_dom_def)
  show ?thesis
    unfolding generic_extract_def ttl pick Let_def eval1_def evalAll_def evaluate_def dom
    by (simp add: q vids clean catch_or_def slice0_def js_eq_iff) (simp add: js_simps)
qed

text \<open>
  Claim C6, as stated, fails where a selector of the list matches but no text is longer
  than 100: the page below has an \<^verbatim>\<open>article\<close> of five characters and a longer body,
  and the content returned is the five characters, not the body.
\<close>

theorem generic_keeps_short_text:
  "generic_extract no_matches short_article_page [] =
     Inr \<lparr>x_title = Some (js ''A page''), x_author = Some [], x_content = Some (js ''short''),
          x_images = Some [], x_videos = Some [], x_publishedAt = None\<rparr>
   \<and> selector_texts short_article_page = [js ''short'']
   \<and> body_text short_article_page = js ''short and the rest of the page''"
proof -
  have "selector_texts short_article_page = [js ''short'']"
    by (simp add: selector_texts_def contentSelectors_def List.map_filter_simps
        short_article_page_def short_article_dom_def eval1_def js_eq_iff text_element_def)
  moreover have "body_text short_article_page = js ''short and the rest of the page''"
    by (simp add: body_text_def short_article_page_def short_article_dom_def eval1_def
        catch_or_def text_element_def js_eq_iff)
  ultimately show ?thesis using short_article_result by simp
qed

text \<open>
  Claim C6, amended. The generic strategy tries its selectors in order and takes the
  first whose text is longer than 100 characters. When none is, it keeps the text of
  the last selector that matched an element, and reads the whole body only when that
  text is empty or no selector matched. The content it returns is the normalized text
  cut to at most 10000 characters.
\<close>

theorem generic_content:
  assumes "generic_extract rx p target = Inr ex"
  shows "x_content ex =
           Some (slice0 10000
                  (cleanText (if chosen_text p = [] then body_text p else chosen_text p)))
         \<and> length (or_else (x_content ex) []) \<le> 10000"
proof -
  have "x_content ex =
           Some (slice0 10000
                  (cleanText (if chosen_text p = [] then body_text p else chosen_text p)))"
    using assms
    by (auto simp: generic_extract_def pickContent_chosen body_text_def Let_def
        split: sum.splits)
  then show ?thesis by (simp add: or_else_def slice0_def)
qed

theorem generic_content_witness:
  "generic_extract no_matches short_article_page [] =
     Inr \<lparr>x_title = Some (js ''A page''), x_author = Some [], x_content = Some (js ''short''),
          x_images = Some [], x_videos = Some [], x_publishedAt = None\<rparr>
   \<and> x_content \<lparr>x_title = Some (js ''A page''), x_author = Some [],
          x_content = Some (js ''short''), x_images = Some [], x_videos = Some [],
          x_publishedAt = None\<rparr> =
       Some (slice0 10000
              (cleanText (if chosen_text short_article_page = [] then body_text short_article_page
                          else chosen_text short_article_page)))
   \<and> length (or_else (x_content \<lparr>x_title = Some (js ''A page''), x_author = Some [],
          x_content = Some (js ''short''), x_images = Some [], x_videos = Some [],
          x_publishedAt = None\<rparr>) []) \<le> 10000"
  by (rule conjI [OF short_article_result generic_content [OF short_article_result]])

section \<open>Media lists: proofs\<close>

lemma member_set: "List.member xs x = (x \<in> set xs)"
  by (induction xs) auto

lemma distinct_push_if: "distinct vids \<Longrightarrow> distinct (push_if ok vids u)"
  by (simp add: push_if_def member_set)

lemma distinct_push_all: "distinct vids \<Longrightarrow> distinct (push_all ok vids us)"
  unfolding push_all_def by (induction us arbitrary: vids) (simp_all add: distinct_push_if)

lemma slice0_bounded: "length (slice0 n xs) \<le> n"
  by (simp add: slice0_def)

lemma distinct_slice0: "distinct xs \<Longrightarrow> distinct (slice0 n xs)"
  by (simp add: slice0_def)

lemma catch_or_cases: "P v \<Longrightarrow> (\<And>x. r = Some x \<Longrightarrow> P x) \<Longrightarrow> P (catch_or r v)"
  by (cases r) (simp_all add: catch_or_def)

lemma capped_Nil: "capped n []"
  by (simp add: capped_def)

lemma capped_slice_push: "distinct vids \<Longrightarrow> capped n (slice0 n (push_all ok vids us))"
  by (simp add: capped_def slice0_bounded distinct_slice0 distinct_push_all)

lemma capped_evaluate:
  "(\<And>d. capped n (script d)) \<Longrightarrow> capped n (catch_or (evaluate p label script) [])"
  by (rule catch_or_cases) (auto simp: capped_Nil evaluate_def)

lemma zhihu_videos_capped: "capped 10 (zhihu_extractVideos rx p)"
  unfolding zhihu_extractVideos_def
  by (rule capped_evaluate) (simp add: zhihu_videos_script_def spread_set_def capped_slice_push Let_def)

lemma twitter_videos_capped: "capped 10 (catch_or (evaluate p l (twitter_videos_script rx)) [])"
  by (rule capped_evaluate)
    (simp add: twitter_videos_script_def Let_def capped_slice_push distinct_push_all)

lemma wechat_videos_capped: "capped 10 (catch_or (evaluate p l (wechat_videos_script rx)) [])"
  by (rule capped_evaluate)
    (simp add: wechat_videos_script_def Let_def capped_slice_push distinct_push_all)

lemma generic_videos_capped: "capped 10 (catch_or (evaluate p l (generic_videos_script rx)) [])"
  by (rule capped_evaluate)
    (simp add: generic_videos_script_def Let_def capped_slice_push distinct_push_all)

lemma xhs_videos_capped: "capped 10 (catch_or (evaluate p l (xhs_videos_script rx)) [])"
  by (rule capped_evaluate)
    (simp add: xhs_videos_script_def Let_def capped_slice_push distinct_push_all)

lemma xhs_images_capped: "capped 20 (catch_or (evaluate p l (xhs_images_script rx)) [])"
  by (rule capped_evaluate)
    (simp add: xhs_images_script_def Let_def capped_slice_push distinct_push_all)

lemma zhihu_videos: "zhihu_extract rx p t = Inr ex \<Longrightarrow> capped 10 (or_empty (x_videos ex))"
  using zhihu_videos_capped [of rx p]
  by (auto simp: zhihu_extract_def zhihu_extractArticle_def zhihu_extractAnswer_def
      zhihu_extractGeneric_def Let_def or_empty_def split: sum.splits if_splits)

lemma twitter_videos: "twitter_extract rx p t = Inr ex \<Longrightarrow> capped 10 (or_empty (x_videos ex))"
  using twitter_videos_capped [of p _ rx]
  by (auto simp: twitter_extract_def Let_def or_empty_def split: sum.splits option.splits)

lemma wechat_media:
  "wechat_extract rx p t = Inr ex \<Longrightarrow>
     capped 10 (or_empty (x_videos ex)) \<and> distinct (or_empty (x_images ex))"
  using wechat_videos_capped [of p _ rx]
  by (auto simp: wechat_extract_def Let_def or_empty_def spread_set_def distinct_push_all)

lemma generic_media:
  "generic_extract rx p t = Inr ex \<Longrightarrow>
     capped 10 (or_empty (x_videos ex)) \<and> length (or_empty (x_images ex)) \<le> 20"
proof -
  assume a: "generic_extract rx p t = Inr ex"
  have "length (catch_or (evalAll p l (\<lambda>imgs. slice0 20 (f imgs))) []) \<le> 20" for l f
    by (rule catch_or_cases) (auto simp: evalAll_def slice0_def)
  then show ?thesis using a generic_videos_capped [of p _ rx]
    by (auto simp: generic_extract_def Let_def or_empty_def split: sum.splits)
qed

lemma xhs_media:
  "xhs_extract rx p t = Inr ex \<Longrightarrow>
     capped 10 (or_empty (x_videos ex)) \<and> capped 20 (or_empty (x_images ex))"
  using xhs_videos_capped [of p _ rx] xhs_images_capped [of p _ rx]
  by (auto simp: xhs_extract_def xhs_empty_def Let_def or_empty_def capped_Nil
      split: sum.splits option.splits if_splits)

lemma note_result: "xhs_extract no_matches note_page [] =
  Inr \<lparr>x_title = Some (js ''Tea''), x_author = Some [], x_content = Some [],
       x_images = Some [js ''https://sns-webpic-qc.xhscdn.com/note/a.jpg''], x_videos = Some [],
       x_publishedAt = Some []\<rparr>"
proof -
  have w: "page_wait note_page l = None" for l by (simp add: note_page_def)
  have ttl: "page_title note_page = Inr (js ''Tea'' @ lit_title_suffix)" by (simp add: note_page_def)
  have dom: "page_dom note_page call = Some note_dom" for call by (simp add: note_page_def)
  have q: "querySelectorAll note_dom selector = []" if "selector \<noteq> js ''img''" for selector
    using that by (simp add: note_dom_def)
  have qi: "querySelectorAll note_dom (js ''img'') = [note_image, note_image]"
    by (simp add: note_dom_def)
  have t1: "\<not> includes_js (js ''Tea'' @ lit_title_suffix) lit_login"
    by (simp add: js_simps lit_title_suffix_def lit_login_def)
  have t2: "includes_js (js ''Tea'' @ lit_title_suffix) lit_title_suffix"
    by (simp add: js_simps lit_title_suffix_def)
  have t3: "replaceFirst_js lit_title_suffix [] (js ''Tea'' @ lit_title_suffix) = js ''Tea''"
    by (simp add: js_simps lit_title_suffix_def)
  have clean: "cleanText (js ''Tea'') = js ''Tea''" "cleanText [] = []"
    by (simp_all add: cleanText_def js_simps trim_def is_ws_def)
  have author: "xhs_author_script note_dom = []"
    by (simp add: xhs_author_script_def q js_eq_iff)
  have content: "xhs_content_script note_dom = []"
    by (simp add: xhs_content_script_def q js_eq_iff)
  have src: "src_or_data_src note_image = js ''https://sns-webpic-qc.xhscdn.com/note/a.jpg?imageView2''"
    by (simp add: src_or_data_src_def note_image_def or_str_def js_simps)
  have ok: "xhs_is_note_image (js ''https://sns-webpic-qc.xhscdn.com/note/a.jpg?imageView2'')"
    by (simp add: xhs_is_note_image_def js_simps)
  have fp: "first_piece 63 (js ''https://sns-webpic-qc.xhscdn.com/note/a.jpg?imageView2'')
            = js ''https://sns-webpic-qc.xhscdn.com/note/a.jpg''"
    by (simp add: first_piece_def js_simps)
  have images: "xhs_images_script no_matches note_dom = [js ''https://sns-webpic-qc.xhscdn.com/note/a.jpg'']"
    by (simp add: xhs_images_script_def qi src ok fp no_matches_def captures_def push_all_def
        push_if_def slice0_def note_dom_def)
  have videos: "xhs_videos_script no_matches note_dom = []"
    by (simp add: xhs_videos_script_def q js_eq_iff no_matches_def captures_def push_all_def slice0_def
       note_dom_def)
  have time: "xhs_time_script no_matches note_dom = []"
    by (simp add: xhs_time_script_def timePatterns_def note_dom_def)
  show ?thesis
    unfolding xhs_extract_def w ttl evaluate_def dom Let_def
    by (simp add: t1 t2 t3 author content images videos time clean catch_or_def)
qed

lemma gallery_result: "twitter_extract no_matches gallery_page [] =
  Inr \<lparr>x_title = Some (js ''Post''), x_author = Some [], x_content = Some [],
       x_images = Some (replicate 21 (js ''https://pbs.twimg.com/media/a.jpg'')), x_videos = Some [],
       x_publishedAt = Some []\<rparr>"
proof -
  have w: "page_wait gallery_page l = None" for l by (simp add: gallery_page_def)
  have ttl: "page_title gallery_page = Inr (js ''Post / X'')" by (simp add: gallery_page_def)
  have dom: "page_dom gallery_page call = Some gallery_dom" for call by (simp add: gallery_page_def)
  have title: "cleanText (replaceFirst_js (js '' on X:'') (js '': '')
                 (replaceFirst_js (js '' / X'') [] (js ''Post / X''))) = js ''Post''"
    by (simp add: js_simps cleanText_def trim_def is_ws_def)
  have clean: "cleanText [] = []"
    by (simp add: cleanText_def trim_def)
  have src: "attr_or_empty (js ''src'') photo_element = js ''https://pbs.twimg.com/media/a.jpg''"
    by (simp add: attr_or_empty_def photo_element_def or_else_def js_simps)
  have ne: "nonempty (js ''https://pbs.twimg.com/media/a.jpg'')"
    by (simp add: nonempty_def js_simps)
  have q: \<open>querySelectorAll gallery_dom selector =
      (if selector = js ''article [data-testid="tweetPhoto"] img''
       then replicate 21 photo_element else [])\<close> for selector
    by (simp add: gallery_dom_def)
  have html: "innerHTML gallery_dom = []" by (simp add: gallery_dom_def)
  have videos: "twitter_videos_script no_matches gallery_dom = []"
    by (simp add: twitter_videos_script_def q html js_eq_iff no_matches_def captures_def
        push_all_def slice0_def)
  show ?thesis
    unfolding twitter_extract_def w ttl evaluate_def evalAll_def eval1_def dom Let_def
    by (simp add: q js_eq_iff videos title clean catch_or_def src ne)
qed

lemma essay_result:
  "zhihu_extract no_matches zhihu_article_page (js ''https://zhuanlan.zhihu.com/p/1'') =
     Inr \<lparr>x_title = Some (js ''Essay''), x_author = Some [], x_content = Some [],
          x_images = Some (replicate 21 (js ''https://pbs.twimg.com/media/a.jpg'')),
          x_videos = Some [], x_publishedAt = Some []\<rparr>"
proof -
  have ttl: "page_title zhihu_article_page = Inr (js ''Essay'')"
    by (simp add: zhihu_article_page_def)
  have dom: "page_dom zhihu_article_page call = Some zhihu_article_dom" for call
    by (simp add: zhihu_article_page_def)
  have q: "querySelectorAll zhihu_article_dom selector =
      (if selector = js ''.Post-RichTextContainer img, .RichText img''
       then replicate 21 photo_element else [])" for selector
    by (simp add: zhihu_article_dom_def)
  have html: "innerHTML zhihu_article_dom = []" by (simp add: zhihu_article_dom_def)
  have article: "includes_js (js ''https://zhuanlan.zhihu.com/p/1'') (js ''/p/'')"
    by (simp add: js_simps)
  have clean: "cleanText (js ''Essay'') = js ''Essay''" "cleanText [] = []"
    by (simp_all add: cleanText_def js_simps trim_def is_ws_def)
  have src: "attr_or_empty (js ''src'') photo_element = js ''https://pbs.twimg.com/media/a.jpg''"
    by (simp add: attr_or_empty_def photo_element_def or_else_def js_simps)
  have ne: "nonempty (js ''https://pbs.twimg.com/media/a.jpg'')"
    by (simp add: nonempty_def js_simps)
  have imgs: "zhihu_img_srcs (replicate 21 photo_element)
              = replicate 21 (js ''https://pbs.twimg.com/media/a.jpg'')"
    using ne by (simp add: zhihu_img_srcs_def src or_str_def nonempty_def)
  have videos: "zhihu_extractVideos no_matches zhihu_article_page = []"
    by (simp add: zhihu_extractVideos_def evaluate_def dom catch_or_def zhihu_videos_script_def
        q html js_eq_iff no_matches_def captures_def spread_set_def push_all_def slice0_def)
  have "zhihu_extractArticle no_matches zhihu_article_page =
     Inr \<lparr>x_title = Some (js ''Essay''), x_author = Some [], x_content = Some [],
          x_images = Some (replicate 21 (js ''https://pbs.twimg.com/media/a.jpg'')),
          x_videos = Some [], x_publishedAt = Some []\<rparr>"
    unfolding zhihu_extractArticle_def ttl evalAll_def eval1_def dom Let_def
    by (simp add: q js_eq_iff videos imgs clean catch_or_def)
  then show ?thesis by (simp add: zhihu_extract_def article)
qed

lemma catch_evalAll:
  "f [] = [] \<Longrightarrow> catch_or (evalAll p selector f) [] = f (matched p selector)"
  by (simp add: catch_or_def evalAll_def matched_def split: option.splits)

lemma twitter_images:
  assumes "twitter_extract rx p t = Inr ex"
  shows "or_empty (x_images ex) =
           filter nonempty (map (attr_or_empty (js ''src'')) (matched p twitter_photo_selector))"
proof -
  have "catch_or (evalAll p twitter_photo_selector
            (\<lambda>imgs. filter nonempty (map (attr_or_empty (js ''src'')) imgs))) []
        = filter nonempty (map (attr_or_empty (js ''src'')) (matched p twitter_photo_selector))"
    by (rule catch_evalAll) simp
  then show ?thesis using assms
    by (auto simp: twitter_extract_def twitter_photo_selector_def Let_def or_empty_def
        split: sum.splits option.splits)
qed

lemma zhihu_images:
  assumes "zhihu_extract rx p t = Inr ex"
  shows "or_empty (x_images ex) =
           (if includes_js t (js ''/p/'')
            then zhihu_img_srcs (matched p (js ''.Post-RichTextContainer img, .RichText img''))
            else if includes_js t (js ''/answer/'')
            then zhihu_img_srcs (matched p (js ''.RichContent-inner img''))
            else [])"
proof -
  have e: "zhihu_img_srcs [] = []" by (simp add: zhihu_img_srcs_def)
  have "catch_or (evalAll p selector zhihu_img_srcs) [] = zhihu_img_srcs (matched p selector)"
    for selector
    by (rule catch_evalAll) (rule e)
  then show ?thesis using assms
    by (auto simp: zhihu_extract_def zhihu_extractArticle_def zhihu_extractAnswer_def
        zhihu_extractGeneric_def Let_def or_empty_def split: sum.splits if_splits)
qed

lemma replicate_not_distinct: "\<not> distinct (replicate 21 x)"
proof -
  have "(21::nat) = Suc (Suc 19)" by simp
  then have "replicate 21 x = x # x # replicate 19 x" by (simp only: replicate_Suc)
  then show ?thesis by simp
qed

text \<open>
  Claim C3, as stated, fails for the images of the Twitter strategy (and of the Zhihu
  article and answer branches, which read images the same way): the list is every
  non-empty \<^verbatim>\<open>src\<close> of the matched elements, neither deduplicated nor capped. A
  tweet showing one photo twenty-one times yields twenty-one equal entries.
\<close>

theorem twitter_images_unbounded:
  "cr_extract (getCrawler no_matches Twitter) gallery_page [] =
     Inr \<lparr>x_title = Some (js ''Post''), x_author = Some [], x_content = Some [],
          x_images = Some (replicate 21 (js ''https://pbs.twimg.com/media/a.jpg'')),
          x_videos = Some [], x_publishedAt = Some []\<rparr>
   \<and> length (replicate 21 (js ''https://pbs.twimg.com/media/a.jpg'')) = 21
   \<and> \<not> distinct (replicate 21 (js ''https://pbs.twimg.com/media/a.jpg''))"
  by (simp add: TwitterCrawler_def gallery_result replicate_not_distinct)

text \<open>
  Claim C3, amended. For every strategy and every page the video list has at most 10
  entries and no entry twice. The image list has at most 20 entries for the
  Xiaohongshu and the generic strategy, and no entry twice for the Xiaohongshu and the
  WeChat strategy. The image list of the Twitter strategy is every non-empty
  \<^verbatim>\<open>src\<close> of the elements its photo selector matches, and that of the Zhihu article
  and answer branches every non-empty \<^verbatim>\<open>src\<close> (or \<^verbatim>\<open>data-original\<close>, where the
  \<^verbatim>\<open>src\<close> is missing or empty) of the elements their image selectors match, in
  document order, with no cap and with repetitions kept; the third Zhihu branch returns
  no image.
\<close>

theorem media_bounds:
  assumes "cr_extract (getCrawler rx pf) p target = Inr ex"
  shows "capped 10 (or_empty (x_videos ex))
    \<and> (pf = Xiaohongshu \<or> pf = Unknown \<longrightarrow> length (or_empty (x_images ex)) \<le> 20)
    \<and> (pf = Xiaohongshu \<or> pf = Wechat \<longrightarrow> distinct (or_empty (x_images ex)))
    \<and> (pf = Twitter \<longrightarrow>
          or_empty (x_images ex) =
            filter nonempty
              (map (attr_or_empty (js ''src'')) (matched p twitter_photo_selector)))
    \<and> (pf = Zhihu \<longrightarrow>
          or_empty (x_images ex) =
            (if includes_js target (js ''/p/'')
             then zhihu_img_srcs (matched p (js ''.Post-RichTextContainer img, .RichText img''))
             else if includes_js target (js ''/answer/'')
             then zhihu_img_srcs (matched p (js ''.RichContent-inner img''))
             else []))
    \<and> zhihu_img_srcs imgs =
          filter nonempty
            (map (\<lambda>img. or_str (attr_or_empty (js ''src'') img)
                                 (attr_or_empty (js ''data-original'') img)) imgs)"
proof (cases pf)
  case Zhihu
  then show ?thesis using assms zhihu_videos [of rx p target ex] zhihu_images [of rx p target ex]
    by (simp add: ZhihuCrawler_def zhihu_img_srcs_def)
next
  case Xiaohongshu
  then show ?thesis using assms xhs_media [of rx p target ex]
    by (simp add: XiaohongshuCrawler_def capped_def zhihu_img_srcs_def)
next
  case Twitter
  then show ?thesis using assms twitter_videos [of rx p target ex] twitter_images [of rx p target ex]
    by (simp add: TwitterCrawler_def zhihu_img_srcs_def)
next
  case Wechat
  then show ?thesis using assms wechat_media [of rx p target ex]
    by (simp add: WechatCrawler_def zhihu_img_srcs_def)
next
  case Unknown
  then show ?thesis using assms generic_media [of rx p target ex]
    by (simp add: GenericCrawler_def zhihu_img_srcs_def)
qed

theorem media_bounds_witness:
  "cr_extract (getCrawler no_matches Xiaohongshu) note_page [] =
     Inr \<lparr>x_title = Some (js ''Tea''), x_author = Some [], x_content = Some [],
          x_images = Some [js ''https://sns-webpic-qc.xhscdn.com/note/a.jpg''],
          x_videos = Some [], x_publishedAt = Some []\<rparr>
   \<and> capped 10 []
   \<and> length [js ''https://sns-webpic-qc.xhscdn.com/note/a.jpg''] \<le> 20
   \<and> distinct [js ''https://sns-webpic-qc.xhscdn.com/note/a.jpg'']
   \<and> cr_extract (getCrawler no_matches Twitter) gallery_page [] =
     Inr \<lparr>x_title = Some (js ''Post''), x_author = Some [], x_content = Some [],
          x_images = Some (replicate 21 (js ''https://pbs.twimg.com/media/a.jpg'')),
          x_videos = Some [], x_publishedAt = Some []\<rparr>
   \<and> replicate 21 (js ''https://pbs.twimg.com/media/a.jpg'') =
       filter nonempty
         (map (attr_or_empty (js ''src'')) (matched gallery_page twitter_photo_selector))
   \<and> cr_extract (getCrawler no_matches Zhihu) zhihu_article_page
       (js ''https://zhuanlan.zhihu.com/p/1'') =
     Inr \<lparr>x_title = Some (js ''Essay''), x_author = Some [], x_content = Some [],
          x_images = Some (replicate 21 (js ''https://pbs.twimg.com/media/a.jpg'')),
          x_videos = Some [], x_publishedAt = Some []\<rparr>
   \<and> replicate 21 (js ''https://pbs.twimg.com/media/a.jpg'') =
       zhihu_img_srcs
         (matched zhihu_article_page (js ''.Post-RichTextContainer img, .RichText img''))"
proof -
  have h1: "cr_extract (getCrawler no_matches Xiaohongshu) note_page [] =
     Inr \<lparr>x_title = Some (js ''Tea''), x_author = Some [], x_content = Some [],
          x_images = Some [js ''https://sns-webpic-qc.xhscdn.com/note/a.jpg''],
          x_videos = Some [], x_publishedAt = Some []\<rparr>"
    by (simp add: XiaohongshuCrawler_def note_result)
  have h2: "cr_extract (getCrawler no_matches Twitter) gallery_page [] =
     Inr \<lparr>x_title = Some (js ''Post''), x_author = Some [], x_content = Some [],
          x_images = Some (replicate 21 (js ''https://pbs.twimg.com/media/a.jpg'')),
          x_videos = Some [], x_publishedAt = Some []\<rparr>"
    by (simp add: TwitterCrawler_def gallery_result)
  have h3: "cr_extract (getCrawler no_matches Zhihu) zhihu_article_page
       (js ''https://zhuanlan.zhihu.com/p/1'') =
     Inr \<lparr>x_title = Some (js ''Essay''), x_author = Some [], x_content = Some [],
          x_images = Some (replicate 21 (js ''https://pbs.twimg.com/media/a.jpg'')),
          x_videos = Some [], x_publishedAt = Some []\<rparr>"
    by (simp add: ZhihuCrawler_def essay_result)
  have article: "includes_js (js ''https://zhuanlan.zhihu.com/p/1'') (js ''/p/'')"
    by (simp add: js_simps)
  have a: "capped 10 []
   \<and> length [js ''https://sns-webpic-qc.xhscdn.com/note/a.jpg''] \<le> 20
   \<and> distinct [js ''https://sns-webpic-qc.xhscdn.com/note/a.jpg'']"
    using media_bounds [OF h1] by (simp add: or_empty_def)
  have b: "replicate 21 (js ''https://pbs.twimg.com/media/a.jpg'') =
       filter nonempty
         (map (attr_or_empty (js ''src'')) (matched gallery_page twitter_photo_selector))"
    using media_bounds [OF h2] by (simp add: or_empty_def)
  have c: "replicate 21 (js ''https://pbs.twimg.com/media/a.jpg'') =
       zhihu_img_srcs
         (matched zhihu_article_page (js ''.Post-RichTextContainer img, .RichText img''))"
    using media_bounds [OF h3] article by (simp add: or_empty_def)
  show ?thesis using h1 h2 h3 a b c by blast
qed

section \<open>The base crawler: proofs\<close>

lemma promise_resolve: "promise (resolve r st) = (case promise st of None \<Rightarrow> Some r | Some v \<Rightarrow> Some v)"
  by (simp add: resolve_def)

lemma callback_keeps: "promise st = Some r \<Longrightarrow> promise (callback self target e st) = Some r"
  by (cases e; cases "fst e")
    (auto simp: requestHandler_def failedRequestHandler_def runFinally_def resolve_def
      split: sum.splits)

lemma run_keeps: "promise st = Some r \<Longrightarrow> promise (run self target st evs) = Some r"
  by (induction evs arbitrary: st) (simp_all add: callback_keeps)

lemma first_callback_resolves:
  "\<exists>r. promise (callback self target e initial) = Some r"
  by (cases e; cases "fst e")
    (auto simp: requestHandler_def failedRequestHandler_def runFinally_def resolve_def initial_def
      split: sum.splits)

lemma crawl_promise:
  "crawl lib self target options evs =
     (case executorSetup lib options of
        Some e \<Rightarrow> Rejected e
      | None \<Rightarrow>
          (case promise (run self target initial evs) of
             None \<Rightarrow> Pending
           | Some r \<Rightarrow> Resolved r))"
  using parseCookies_total [of "opt_cookies options" "getDomain self"]
  by (auto simp: crawl_def)

lemma first_callback_builds:
  "promise (callback self target ev initial) = Some (built_by self target ev)"
proof -
  obtain e now where ev: "ev = (e, now)" by (cases ev)
  show ?thesis
    unfolding ev
    by (cases e)
      (simp_all add: requestHandler_def failedRequestHandler_def runFinally_def resolve_def
        initial_def built_by_def failed_result_def split: sum.splits)
qed

lemma run_first_builds:
  "promise (run self target initial (ev # evs)) = Some (built_by self target ev)"
  by (simp add: run_keeps first_callback_builds)

lemma crawl_first:
  "crawl lib self target options (ev # evs) = crawl lib self target options [ev]"
  by (simp only: crawl_promise run_first_builds)

lemma run_first_resolution:
  "promise st = None \<Longrightarrow> promise (run self target st evs) = Some r \<Longrightarrow>
   \<exists>pre e post. evs = pre @ e # post \<and> promise (run self target st pre) = None
      \<and> promise (callback self target e (run self target st pre)) = Some r"
proof (induction evs arbitrary: st)
  case Nil then show ?case by simp
next
  case (Cons e es)
  show ?case
  proof (cases "promise (callback self target e st)")
    case None
    from Cons.IH [OF None] Cons.prems(2)
    obtain pre e' post where "es = pre @ e' # post"
      "promise (run self target (callback self target e st) pre) = None"
      "promise (callback self target e' (run self target (callback self target e st) pre)) = Some r"
      by auto
    then have "e # es = (e # pre) @ e' # post \<and> promise (run self target st (e # pre)) = None
      \<and> promise (callback self target e' (run self target st (e # pre))) = Some r"
      by simp
    then show ?thesis by blast
  next
    case (Some r')
    then have "promise (run self target st (e # es)) = Some r'" by (simp add: run_keeps)
    then have "r' = r" using Cons.prems(2) by simp
    then have "e # es = [] @ e # es \<and> promise (run self target st []) = None
      \<and> promise (callback self target e (run self target st [])) = Some r"
      using Some Cons.prems(1) by simp
    then show ?thesis by blast
  qed
qed

lemma callback_result:
  "promise st = None \<Longrightarrow> promise (callback self target (ev, now) st) = Some r \<Longrightarrow>
   (case ev of
      RequestHandler p request_url \<Rightarrow>
        (case handlerBody self p request_url of
           Inr x \<Rightarrow> success r \<and> error r = None \<and> crawledAt r = now
         | Inl err \<Rightarrow> r = failed_result self request_url now
                            (case err of Error message \<Rightarrow> message | NonError \<Rightarrow> js ''Unknown error''))
    | FailedRequestHandler request_url message \<Rightarrow> r = failed_result self request_url now message
    | RunFinally \<Rightarrow> r = failed_result self target now (js ''Crawler finished without result''))"
  by (cases ev)
    (auto simp: requestHandler_def failedRequestHandler_def runFinally_def resolve_def
      failed_result_def split: sum.splits if_splits)

lemma crawl_Pending_iff:
  "crawl lib self target options evs = Pending \<longleftrightarrow>
     executorSetup lib options = None \<and> promise (run self target initial evs) = None"
  by (simp add: crawl_promise split: option.splits)

lemma crawl_Resolved_iff:
  "crawl lib self target options evs = Resolved r \<longleftrightarrow>
     executorSetup lib options = None \<and> promise (run self target initial evs) = Some r"
  by (simp add: crawl_promise split: option.splits)

lemma default_timeout_accepted: "executorSetup checking_crawlee no_options = None"
  by (simp add: executorSetup_def checking_crawlee_def no_options_def)

lemma failed_result_fields:
  "\<not> success (failed_result self u now m)" "error (failed_result self u now m) = Some m"
  "title (failed_result self u now m) = []" "content (failed_result self u now m) = []"
  "images (failed_result self u now m) = []" "videos (failed_result self u now m) = []"
  "crawledAt (failed_result self u now m) = now"
  by (simp_all add: failed_result_def)

text \<open>
  Claim C2. A result with \<^verbatim>\<open>success\<close> false has its \<^verbatim>\<open>error\<close> set, an empty title
  and content and empty image and video lists, and its \<^verbatim>\<open>crawledAt\<close> is the clock
  reading of the callback that resolved the crawl, which was pending until then. That
  callback is one of three: a \<^verbatim>\<open>requestHandler\<close> whose body threw (the message of the
  error, or "Unknown error"), \<^verbatim>\<open>failedRequestHandler\<close> (the message it was given),
  or the \<^verbatim>\<open>finally\<close> of the run ("Crawler finished without result").
\<close>

theorem failure_results:
  assumes "crawl lib self target options evs = Resolved r" and "\<not> success r"
  shows "error r \<noteq> None \<and> title r = [] \<and> content r = [] \<and> images r = [] \<and> videos r = []
    \<and> (\<exists>pre ev now post.
          evs = pre @ (ev, now) # post \<and> crawl lib self target options pre = Pending
          \<and> crawledAt r = now
          \<and> (case ev of
                RequestHandler p request_url \<Rightarrow>
                  (\<exists>err. handlerBody self p request_url = Inl err
                     \<and> r = failed_result self request_url now
                           (case err of Error message \<Rightarrow> message
                            | NonError \<Rightarrow> js ''Unknown error''))
              | FailedRequestHandler request_url message \<Rightarrow>
                  r = failed_result self request_url now message
              | RunFinally \<Rightarrow>
                  r = failed_result self target now (js ''Crawler finished without result'')))"
proof -
  have p0: "promise initial = None" by (simp add: initial_def)
  have pr: "promise (run self target initial evs) = Some r"
    and constructed: "executorSetup lib options = None"
    using assms(1) by (simp_all add: crawl_Resolved_iff)
  from run_first_resolution [OF p0 pr]
  obtain pre e post where evs: "evs = pre @ e # post"
    and pre: "promise (run self target initial pre) = None"
    and e: "promise (callback self target e (run self target initial pre)) = Some r"
    by blast
  obtain ev now where en: "e = (ev, now)" by (cases e)
  note cr = callback_result [OF pre e [unfolded en]]
  have shape: "crawledAt r = now
          \<and> (case ev of
                RequestHandler p request_url \<Rightarrow>
                  (\<exists>err. handlerBody self p request_url = Inl err
                     \<and> r = failed_result self request_url now
                           (case err of Error message \<Rightarrow> message
                            | NonError \<Rightarrow> js ''Unknown error''))
              | FailedRequestHandler request_url message \<Rightarrow>
                  r = failed_result self request_url now message
              | RunFinally \<Rightarrow>
                  r = failed_result self target now (js ''Crawler finished without result''))"
    using cr assms(2)
    by (cases ev) (auto simp: failed_result_fields split: sum.splits)
  then have "\<exists>u m. r = failed_result self u now m"
    by (cases ev) auto
  then have fields: "error r \<noteq> None \<and> title r = [] \<and> content r = [] \<and> images r = []
      \<and> videos r = []"
    by (auto simp: failed_result_fields)
  have "crawl lib self target options pre = Pending"
    using pre constructed by (simp add: crawl_Pending_iff)
  then show ?thesis using fields shape evs en by blast
qed

theorem failure_results_witness:
  "crawl checking_crawlee (GenericCrawler no_matches) (js ''https://example.com/a'') no_options
      [(FailedRequestHandler (js ''https://example.com/a'') (js ''Navigation timed out''),
          js ''2024-01-01T00:00:31.000Z''),
       (RunFinally, js ''2024-01-01T00:00:32.000Z'')] =
     Resolved (failed_result (GenericCrawler no_matches) (js ''https://example.com/a'')
                (js ''2024-01-01T00:00:31.000Z'') (js ''Navigation timed out''))
   \<and> error (failed_result (GenericCrawler no_matches) (js ''https://example.com/a'')
                (js ''2024-01-01T00:00:31.000Z'') (js ''Navigation timed out'')) \<noteq> None
   \<and> title (failed_result (GenericCrawler no_matches) (js ''https://example.com/a'')
                (js ''2024-01-01T00:00:31.000Z'') (js ''Navigation timed out'')) = []"
proof -
  let ?r = "failed_result (GenericCrawler no_matches) (js ''https://example.com/a'')
                (js ''2024-01-01T00:00:31.000Z'') (js ''Navigation timed out'')"
  have h1: "crawl checking_crawlee (GenericCrawler no_matches) (js ''https://example.com/a'')
      no_options
      [(FailedRequestHandler (js ''https://example.com/a'') (js ''Navigation timed out''),
          js ''2024-01-01T00:00:31.000Z''),
       (RunFinally, js ''2024-01-01T00:00:32.000Z'')] = Resolved ?r"
    by (simp add: crawl_promise default_timeout_accepted initial_def failedRequestHandler_def
        runFinally_def resolve_def failed_result_def)
  have h2: "\<not> success ?r" by (simp add: failed_result_def)
  from failure_results [OF h1 h2] have "error ?r \<noteq> None \<and> title ?r = []" by blast
  then show ?thesis using h1 by blast
qed

lemma xhs_login_wall:
  "page_title p = Inr t \<Longrightarrow> includes_js t lit_login \<Longrightarrow> \<not> includes_js t lit_title_suffix \<Longrightarrow>
   xhs_extract rx p u = Inr xhs_empty"
  by (simp add: xhs_extract_def xhs_empty_def split: option.splits)

lemma login_wall_title:
  "includes_js lit_login lit_login" "\<not> includes_js lit_login lit_title_suffix"
  by (simp_all add: lit_login_def lit_title_suffix_def)

text \<open>
  Claim C9. \<^verbatim>\<open>success\<close> true does not mean that content was extracted. On a
  Xiaohongshu login wall (the page title holds the word for "log in" and not the note
  suffix) the strategy returns all fields empty, and \<^verbatim>\<open>crawl\<close>, whose crawler has
  been constructed for the page to be handled at all, resolves with \<^verbatim>\<open>success\<close>
  true, an empty title and content, empty image and video lists and no \<^verbatim>\<open>error\<close>,
  whatever callbacks follow.
\<close>

theorem login_wall_success:
  assumes "page_title p = Inr t" and "includes_js t lit_login"
    and "\<not> includes_js t lit_title_suffix"
    and "page_wait p (js ''waitForLoadState(domcontentloaded)'') = None"
    and "page_wait p (js ''waitForTimeout(2000)'') = None"
    and "executorSetup lib options = None"
  shows "crawl lib (XiaohongshuCrawler rx) target options
           ((RequestHandler p request_url, now) # evs) =
     Resolved \<lparr>success = True, platform = Xiaohongshu, url = request_url, title = [],
               author = None, content = [], images = [], videos = [], publishedAt = None,
               crawledAt = now, error = None\<rparr>"
proof -
  have "handlerBody (XiaohongshuCrawler rx) p request_url = Inr xhs_empty"
    using assms by (simp add: handlerBody_def XiaohongshuCrawler_def xhs_login_wall)
  then have "crawl lib (XiaohongshuCrawler rx) target options
           [(RequestHandler p request_url, now)] =
     Resolved \<lparr>success = True, platform = Xiaohongshu, url = request_url, title = [],
               author = None, content = [], images = [], videos = [], publishedAt = None,
               crawledAt = now, error = None\<rparr>"
    using assms(6)
    by (simp add: crawl_promise requestHandler_def resolve_def initial_def xhs_empty_def
        or_else_def or_empty_def XiaohongshuCrawler_def)
  then show ?thesis by (simp add: crawl_first [of _ _ _ _ _ evs])
qed

theorem login_wall_success_witness:
  "crawl checking_crawlee (XiaohongshuCrawler no_matches)
     (js ''https://www.xiaohongshu.com/explore/1'') no_options
     [(RequestHandler login_wall_page (js ''https://www.xiaohongshu.com/explore/1''),
         js ''2024-01-01T00:00:03.000Z''),
      (RunFinally, js ''2024-01-01T00:00:04.000Z'')] =
     Resolved \<lparr>success = True, platform = Xiaohongshu,
               url = js ''https://www.xiaohongshu.com/explore/1'', title = [],
               author = None, content = [], images = [], videos = [], publishedAt = None,
               crawledAt = js ''2024-01-01T00:00:03.000Z'', error = None\<rparr>"
proof -
  have t: "page_title login_wall_page = Inr lit_login" by (simp add: login_wall_page_def)
  have w: "page_wait login_wall_page (js ''waitForLoadState(domcontentloaded)'') = None"
    "page_wait login_wall_page (js ''waitForTimeout(2000)'') = None"
    by (simp_all add: login_wall_page_def)
  show ?thesis
    by (rule login_wall_success [OF t login_wall_title w default_timeout_accepted])
qed

text \<open>
  Claim C1, as stated, fails twice. \<^verbatim>\<open>crawl\<close> does throw for some options: the
  executor builds the crawler with \<^verbatim>\<open>timeout / 1000\<close> seconds, and with a Crawlee
  that refuses 0 seconds the call \<^verbatim>\<open>crawl(url, {timeout: 0})\<close> is rejected with the
  library's error. And \<^verbatim>\<open>requestHandler\<close> does not read the flag: when a second run
  of it ends after a first one (a retry whose first attempt Crawlee timed out but that
  ran on), the flag is already set and the second run still calls \<^verbatim>\<open>resolve\<close>.
\<close>

theorem second_handler_resolves_again:
  "crawl checking_crawlee (GenericCrawler no_matches) (js ''https://example.com/a'')
      zero_timeout [] = Rejected (Error (js ''ArgumentError''))
   \<and> resolved (run (GenericCrawler no_matches) (js ''https://example.com/a'') initial
      [(RequestHandler short_article_page (js ''https://example.com/a''),
          js ''2024-01-01T00:00:03.000Z'')])
   \<and> resolve_calls (run (GenericCrawler no_matches) (js ''https://example.com/a'') initial
      [(RequestHandler short_article_page (js ''https://example.com/a''),
          js ''2024-01-01T00:00:03.000Z'')]) = 1
   \<and> resolve_calls (run (GenericCrawler no_matches) (js ''https://example.com/a'') initial
      [(RequestHandler short_article_page (js ''https://example.com/a''),
          js ''2024-01-01T00:00:03.000Z''),
       (RequestHandler short_article_page (js ''https://example.com/a''),
          js ''2024-01-01T00:00:05.000Z'')]) = 2"
proof -
  have "executorSetup checking_crawlee zero_timeout = Some (Error (js ''ArgumentError''))"
    by (simp add: executorSetup_def checking_crawlee_def zero_timeout_def)
  then have "crawl checking_crawlee (GenericCrawler no_matches) (js ''https://example.com/a'')
      zero_timeout [] = Rejected (Error (js ''ArgumentError''))"
    by (simp add: crawl_promise)
  then show ?thesis
    by (simp add: requestHandler_def resolve_def initial_def split: sum.splits)
qed

text \<open>
  Claim C1, amended. For every URL, options and sequence of completion callbacks,
  \<^verbatim>\<open>crawl\<close> throws exactly when the construction of the crawler throws (Crawlee
  refuses the options, as for a timeout of 0), and the promise is then rejected with
  that error. In every other case it never throws: it is pending before the first
  callback and resolved after it, to the one result that this first callback builds,
  and no later callback changes the result. \<^verbatim>\<open>failedRequestHandler\<close> and the
  \<^verbatim>\<open>finally\<close> callback read the flag and do nothing when it is set. The two paths of
  \<^verbatim>\<open>requestHandler\<close> do not read it: they set it and call \<^verbatim>\<open>resolve\<close> each time,
  and a call after the first has no effect on the result because a promise keeps its
  first value.
\<close>

theorem crawl_first_resolution_wins:
  "crawl lib self target options evs =
     (case executorSetup lib options of
        Some e \<Rightarrow> Rejected e
      | None \<Rightarrow>
          (case evs of
             [] \<Rightarrow> Pending
           | ev # later \<Rightarrow> Resolved (built_by self target ev)))
   \<and> failedRequestHandler self request_url message now (st\<lparr>resolved := True\<rparr>)
       = st\<lparr>resolved := True\<rparr>
   \<and> runFinally self target now (st\<lparr>resolved := True\<rparr>) = st\<lparr>resolved := True\<rparr>
   \<and> resolve_calls (requestHandler self p request_url now st) = Suc (resolve_calls st)
   \<and> resolved (requestHandler self p request_url now st)
   \<and> promise (requestHandler self p request_url now (st\<lparr>promise := Some r0\<rparr>)) = Some r0"
proof -
  have a: "crawl lib self target options evs =
     (case executorSetup lib options of
        Some e \<Rightarrow> Rejected e
      | None \<Rightarrow>
          (case evs of
             [] \<Rightarrow> Pending
           | ev # later \<Rightarrow> Resolved (built_by self target ev)))"
  proof (cases evs)
    case Nil
    then show ?thesis by (simp add: crawl_promise initial_def split: option.splits)
  next
    case (Cons ev later)
    have "promise (run self target initial evs) = Some (built_by self target ev)"
      unfolding Cons by (rule run_first_builds)
    then show ?thesis using Cons by (simp add: crawl_promise split: option.splits)
  qed
  have d: "failedRequestHandler self request_url message now (st\<lparr>resolved := True\<rparr>)
       = st\<lparr>resolved := True\<rparr>"
    "runFinally self target now (st\<lparr>resolved := True\<rparr>) = st\<lparr>resolved := True\<rparr>"
    by (simp_all add: failedRequestHandler_def runFinally_def)
  have e: "resolve_calls (requestHandler self p request_url now st) = Suc (resolve_calls st)"
    "resolved (requestHandler self p request_url now st)"
    "promise (requestHandler self p request_url now (st\<lparr>promise := Some r0\<rparr>)) = Some r0"
    by (simp_all add: requestHandler_def resolve_def split: sum.splits)
  show ?thesis using a d e by blast
qed

end
